theory Spec2Isabelle
  imports Complex_Main "HOL-Library.Sublist"
begin

section \<open>Data model (types/index.ts, external-types)\<close>

text \<open>
  The aggregation core of the panel is the class \<^verbatim>\<open>DevToolsManager\<close>. Its fields become
  the record \<open>manager\<close>; every method becomes a function that takes the manager and returns
  the updated one. What the class reads from the outside world (the clock, the broker's
  answers to queries, the timer handle handed out by \<^verbatim>\<open>setInterval\<close>) is passed in as
  an argument. The commands it issues to the outside world (clearing a timer, calling an
  unregister function, calling a send command of the broker) are returned as a list of
  effects, in the order in which the code issues them.

  JavaScript numbers that count things are \<open>nat\<close>; clock readings and latencies are \<open>int\<close>;
  ratios are \<open>real\<close>. Payloads are opaque and are kept as text.
\<close>

datatype lifecycle = Pending | Delivered | Failed

datatype result_status = ACK | NACK

datatype dock_position = PosBottom | PosRight | PosLeft | PosFloating

datatype theme = ThemeLight | ThemeDark | ThemeAuto

datatype tab = TabOverview | TabEvents | TabClients | TabDebug

datatype client_type =
  InMemoryClient | PostMessageClient | ServiceWorkerClient | WebSocketClient | WorkerClient

datatype client_status = Active | Inactive | ClientError

text \<open>An event as the broker hands it to the hooks. \<open>ev_recipient\<close> is the property
  \<^verbatim>\<open>"mfe-recipient"\<close>, which may be absent.\<close>

record event =
  ev_id :: string
  ev_type :: string
  ev_source :: string
  ev_time :: "string option"
  ev_data :: "string option"
  ev_recipient :: "string option"

text \<open>The broker's result of a send; the hook may also be called without one.\<close>

record event_result =
  res_status :: result_status
  res_message :: string
  res_timestamp :: int
  res_clientId :: "string option"
  res_data :: "string option"

record delivery_result =
  dr_success :: bool
  dr_handled :: bool

record event_details =
  ed_id :: string
  ed_type :: string
  ed_source :: string
  ed_recipient :: string
  ed_timestamp :: string
  ed_data :: string
  ed_latency :: "int option"
  ed_status :: lifecycle
  ed_deliveryResult :: "delivery_result option"
  ed_brokerResponse :: "event_result option"

record client_info =
  ci_id :: string
  ci_type :: client_type
  ci_subscriptions :: "string list"
  ci_eventsReceived :: nat
  ci_eventsSent :: nat
  ci_lastActivity :: string
  ci_status :: client_status

record performance_metrics =
  pm_totalEvents :: nat
  pm_eventsPerSecond :: real
  pm_averageLatency :: real
  pm_minLatency :: int
  pm_maxLatency :: int
  pm_memoryUsage :: string
  pm_uptime :: int
  pm_successRate :: real

record tally =
  t_total :: nat
  t_byType :: "string \<rightharpoonup> nat"

text \<open>\<^verbatim>\<open>buildDeliveryStats\<close> stores in the snapshot the very objects
  \<^verbatim>\<open>internalMetrics.delivery.acks\<close> and \<^verbatim>\<open>.nacks\<close>, not copies. The snapshot therefore
  holds a reference: \<open>ds_shared\<close> is False for the constructor's own zero tallies and True
  once the snapshot points at the internal tallies (see \<open>ds_acks\<close> and \<open>ds_nacks\<close> below).\<close>

record delivery_stats =
  ds_shared :: bool
  ds_totalDelivery :: nat
  ds_successRate :: real

record event_filters =
  ef_types :: "string list"
  ef_sources :: "string list"
  ef_recipients :: "string list"
  ef_status :: "lifecycle list"

record settings =
  set_isOpen :: bool
  set_position :: dock_position
  set_activeTab :: tab
  set_eventFilters :: event_filters
  set_maxEvents :: nat
  set_autoScroll :: bool
  set_showTimestamps :: bool

record settings_patch =
  sp_isOpen :: "bool option"
  sp_position :: "dock_position option"
  sp_activeTab :: "tab option"
  sp_eventFilters :: "event_filters option"
  sp_maxEvents :: "nat option"
  sp_autoScroll :: "bool option"
  sp_showTimestamps :: "bool option"

record devtools_state =
  s_settings :: settings
  s_events :: "event_details list"
  s_clients :: "client_info list"
  s_metrics :: performance_metrics
  s_deliveryStats :: delivery_stats
  s_isConnected :: bool
  s_lastUpdate :: string

text \<open>The configuration. \<^verbatim>\<open>maxEventHistory\<close> is a number of records and \<^verbatim>\<open>updateInterval\<close>
  a number of milliseconds: both are natural numbers. The optional list of event
  descriptions, which only the panel shows, is left out.\<close>

record config =
  cfg_position :: dock_position
  cfg_theme :: theme
  cfg_maxEventHistory :: nat
  cfg_updateInterval :: nat
  cfg_enablePersistence :: bool

record config_patch =
  cp_position :: "dock_position option"
  cp_theme :: "theme option"
  cp_maxEventHistory :: "nat option"
  cp_updateInterval :: "nat option"
  cp_enablePersistence :: "bool option"

text \<open>The internal metrics. The map \<^verbatim>\<open>brokerResponses\<close> of the source is never read or
  written and is left out.\<close>

record internal_metrics =
  im_total :: nat
  im_byType :: "string \<rightharpoonup> nat"
  im_latencies :: "int list"
  im_acks :: tally
  im_nacks :: tally
  im_startTime :: int
  im_eventTimers :: "string \<rightharpoonup> int"
  im_clientEventsSent :: "string \<rightharpoonup> nat"
  im_clientEventsReceived :: "string \<rightharpoonup> nat"

text \<open>The manager. \<open>m_broker\<close> says whether \<^verbatim>\<open>this.broker\<close> is set; \<open>m_updateInterval\<close> is
  the timer handle; \<open>m_listeners\<close> is the listener set (listeners are named by numbers);
  \<open>m_storage\<close> is the entry of local storage under the panel's key.\<close>

record manager =
  m_broker :: bool
  m_state :: devtools_state
  m_config :: config
  m_listeners :: "nat set"
  m_updateInterval :: "nat option"
  m_metrics :: internal_metrics
  m_storage :: "settings option"

subsection \<open>The outside world\<close>

text \<open>What a broker query can do: the method is missing, it throws, or it returns a
  value (\<open>None\<close> for \<^verbatim>\<open>null\<close>, \<^verbatim>\<open>undefined\<close> or, for the client list, anything that is not an
  array). A subscription table is an object, so its keys are pairwise different.\<close>

datatype 'a reply = Missing | Throws | Returned "'a option"

type_synonym subscriptions = "(string \<times> string list) list"

record broker_view =
  bv_clients :: "(string \<times> client_type option) list reply"
  bv_subscriptions :: "subscriptions reply"

datatype hook = OnSubscribe | BeforeSend | AfterSend

datatype subscribe_hook = HookAbsent | HookThrows | HookPresent

datatype effect =
  UnregisterHook hook
  | SetInterval nat nat
  | ClearInterval nat
  | SendTo string string string string
  | Broadcast string string string

text \<open>Readings taken while a post-send notification is handled: the clock at the two
  calls of \<^verbatim>\<open>Date.now()\<close>, the ISO time, and the broker's answer to
  \<^verbatim>\<open>getSubscriptions()\<close>.\<close>

record post_env =
  pe_now1 :: int
  pe_now2 :: int
  pe_iso :: string
  pe_subscriptions :: "subscriptions reply"

record tick_env =
  te_now :: int
  te_iso :: string
  te_memory :: "string option"
  te_broker :: broker_view

datatype notification =
  PreSend event int string
  | PostSend event "event_result option" post_env

datatype operation =
  Notify notification
  | Tick tick_env
  | ClearEvents
  | UpdateSettings settings_patch

record test_options =
  opt_recipient :: "string option"
  opt_source :: "string option"

datatype send_error = SendFailed

section \<open>JavaScript idioms\<close>

text \<open>\<^verbatim>\<open>x || d\<close> on an optional string: an absent and an empty string are both falsy.\<close>

definition truthy :: "string option \<Rightarrow> bool" where
  "truthy x = (case x of None \<Rightarrow> False | Some s \<Rightarrow> s \<noteq> [])"

definition or_else :: "string option \<Rightarrow> string \<Rightarrow> string" where
  "or_else x d = (case x of None \<Rightarrow> d | Some s \<Rightarrow> if s = [] then d else s)"

text \<open>\<^verbatim>\<open>m.get(k) || 0\<close> and \<^verbatim>\<open>m.set(k, (m.get(k) || 0) + 1)\<close>.\<close>

definition count_of :: "(string \<rightharpoonup> nat) \<Rightarrow> string \<Rightarrow> nat" where
  "count_of m k = (case m k of None \<Rightarrow> 0 | Some n \<Rightarrow> n)"

definition bump :: "(string \<rightharpoonup> nat) \<Rightarrow> string \<Rightarrow> (string \<rightharpoonup> nat)" where
  "bump m k = m(k \<mapsto> count_of m k + 1)"

definition tally_incr :: "tally \<Rightarrow> string \<Rightarrow> tally" where
  "tally_incr t ty = \<lparr>t_total = t_total t + 1, t_byType = bump (t_byType t) ty\<rparr>"

definition zero_tally :: tally where
  "zero_tally = \<lparr>t_total = 0, t_byType = Map.empty\<rparr>"

section \<open>State updates and persistence\<close>

definition persistState :: "manager \<Rightarrow> manager" where
  "persistState st =
     (if cfg_enablePersistence (m_config st)
      then st\<lparr>m_storage := Some (s_settings (m_state st))\<rparr>
      else st)"

text \<open>\<^verbatim>\<open>updateStatePartial\<close>: merge the update into the state, call the listeners with the
  new state (they only observe), persist the settings.\<close>

definition updateStatePartial :: "(devtools_state \<Rightarrow> devtools_state) \<Rightarrow> manager \<Rightarrow> manager" where
  "updateStatePartial upd st = persistState (st\<lparr>m_state := upd (m_state st)\<rparr>)"

definition addEvent :: "event_details \<Rightarrow> manager \<Rightarrow> manager" where
  "addEvent e st =
     (let events = s_events (m_state st) @ [e];
          events' = (if length events > cfg_maxEventHistory (m_config st)
                     then drop (length events - cfg_maxEventHistory (m_config st)) events
                     else events)
      in updateStatePartial (\<lambda>s. s\<lparr>s_events := events'\<rparr>) st)"

text \<open>The update object that \<^verbatim>\<open>handleEventComplete\<close> passes to \<^verbatim>\<open>updateEvent\<close> always has
  the same four keys; a key whose value is \<^verbatim>\<open>undefined\<close> still overwrites.\<close>

record event_update =
  up_status :: lifecycle
  up_deliveryResult :: delivery_result
  up_brokerResponse :: "event_result option"
  up_latency :: "int option"

definition apply_update :: "event_update \<Rightarrow> event_details \<Rightarrow> event_details" where
  "apply_update u e =
     e\<lparr>ed_status := up_status u,
       ed_deliveryResult := Some (up_deliveryResult u),
       ed_brokerResponse := up_brokerResponse u,
       ed_latency := up_latency u\<rparr>"

definition updateEvent :: "string \<Rightarrow> event_update \<Rightarrow> manager \<Rightarrow> manager" where
  "updateEvent eventId u st =
     updateStatePartial
       (\<lambda>s. s\<lparr>s_events := map (\<lambda>e. if ed_id e = eventId then apply_update u e else e) (s_events s)\<rparr>)
       st"

definition clearEvents :: "manager \<Rightarrow> manager" where
  "clearEvents st = updateStatePartial (\<lambda>s. s\<lparr>s_events := []\<rparr>) st"

definition merge_settings :: "settings \<Rightarrow> settings_patch \<Rightarrow> settings" where
  "merge_settings s p =
     \<lparr>set_isOpen = (case sp_isOpen p of None \<Rightarrow> set_isOpen s | Some v \<Rightarrow> v),
      set_position = (case sp_position p of None \<Rightarrow> set_position s | Some v \<Rightarrow> v),
      set_activeTab = (case sp_activeTab p of None \<Rightarrow> set_activeTab s | Some v \<Rightarrow> v),
      set_eventFilters = (case sp_eventFilters p of None \<Rightarrow> set_eventFilters s | Some v \<Rightarrow> v),
      set_maxEvents = (case sp_maxEvents p of None \<Rightarrow> set_maxEvents s | Some v \<Rightarrow> v),
      set_autoScroll = (case sp_autoScroll p of None \<Rightarrow> set_autoScroll s | Some v \<Rightarrow> v),
      set_showTimestamps = (case sp_showTimestamps p of None \<Rightarrow> set_showTimestamps s | Some v \<Rightarrow> v)\<rparr>"

definition updateSettings :: "settings_patch \<Rightarrow> manager \<Rightarrow> manager" where
  "updateSettings p st =
     updateStatePartial (\<lambda>s. s\<lparr>s_settings := merge_settings (s_settings s) p\<rparr>) st"

definition getState :: "manager \<Rightarrow> devtools_state" where
  "getState st = m_state st"

definition subscribe :: "nat \<Rightarrow> manager \<Rightarrow> manager" where
  "subscribe l st = st\<lparr>m_listeners := insert l (m_listeners st)\<rparr>"

definition unsubscribe :: "nat \<Rightarrow> manager \<Rightarrow> manager" where
  "unsubscribe l st = st\<lparr>m_listeners := m_listeners st - {l}\<rparr>"

section \<open>The hooks\<close>

text \<open>The record that both \<^verbatim>\<open>handleEventStart\<close> and the catch-up branch of
  \<^verbatim>\<open>handleEventComplete\<close> build for an event.\<close>

definition eventDetailsOf :: "event \<Rightarrow> string \<Rightarrow> event_details" where
  "eventDetailsOf ev isoNow =
     \<lparr>ed_id = ev_id ev,
      ed_type = ev_type ev,
      ed_source = ev_source ev,
      ed_recipient = or_else (ev_recipient ev) ''*'',
      ed_timestamp = or_else (ev_time ev) isoNow,
      ed_data = (case ev_data ev of None \<Rightarrow> ''{}'' | Some d \<Rightarrow> d),
      ed_latency = None,
      ed_status = Pending,
      ed_deliveryResult = None,
      ed_brokerResponse = None\<rparr>"

text \<open>The counter increments shared by both hooks: total, per type, and the sender's
  sent counter when the event names a source.\<close>

definition countEvent :: "event \<Rightarrow> internal_metrics \<Rightarrow> internal_metrics" where
  "countEvent ev im =
     (let im1 = im\<lparr>im_total := im_total im + 1,
                   im_byType := bump (im_byType im) (ev_type ev)\<rparr>
      in if ev_source ev \<noteq> []
         then im1\<lparr>im_clientEventsSent := bump (im_clientEventsSent im1) (ev_source ev)\<rparr>
         else im1)"

definition handleEventStart :: "event \<Rightarrow> int \<Rightarrow> string \<Rightarrow> manager \<Rightarrow> manager" where
  "handleEventStart ev now isoNow st =
     (let im = m_metrics st;
          im1 = im\<lparr>im_eventTimers := (im_eventTimers im)(ev_id ev \<mapsto> now)\<rparr>;
          st1 = st\<lparr>m_metrics := countEvent ev im1\<rparr>
      in addEvent (eventDetailsOf ev isoNow) st1)"

text \<open>The loop of \<^verbatim>\<open>handleBroadcastEventComplete\<close> over the entries of the table.\<close>

fun countBroadcast :: "event \<Rightarrow> subscriptions \<Rightarrow> (string \<rightharpoonup> nat) \<Rightarrow> (string \<rightharpoonup> nat)" where
  "countBroadcast ev [] m = m"
| "countBroadcast ev ((clientId, eventTypes) # rest) m =
     (if clientId = ev_source ev then countBroadcast ev rest m
      else if ev_type ev \<in> set eventTypes then countBroadcast ev rest (bump m clientId)
      else countBroadcast ev rest m)"

definition handleBroadcastEventComplete ::
  "event \<Rightarrow> event_result \<Rightarrow> subscriptions reply \<Rightarrow> manager \<Rightarrow> manager" where
  "handleBroadcastEventComplete ev res subs st =
     (if \<not> m_broker st \<or> res_status res \<noteq> ACK then st
      else case subs of
             Returned (Some table) \<Rightarrow>
               st\<lparr>m_metrics := (m_metrics st)
                     \<lparr>im_clientEventsReceived :=
                        countBroadcast ev table (im_clientEventsReceived (m_metrics st))\<rparr>\<rparr>
           | _ \<Rightarrow> st)"

text \<open>\<^verbatim>\<open>push\<close> a latency, then keep the last 500 once there are more than 1000.\<close>

definition pushLatency :: "int \<Rightarrow> int list \<Rightarrow> int list" where
  "pushLatency latency ls =
     (let ls1 = ls @ [latency]
      in if length ls1 > 1000 then drop (length ls1 - 500) ls1 else ls1)"

text \<open>\<^verbatim>\<open>if (startTime)\<close>: a start time that is missing or 0 is falsy.\<close>

definition startTimeOf :: "manager \<Rightarrow> string \<Rightarrow> int option" where
  "startTimeOf st eventId =
     (case im_eventTimers (m_metrics st) eventId of
        None \<Rightarrow> None
      | Some t \<Rightarrow> if t = 0 then None else Some t)"

definition isSuccess :: "event_result option \<Rightarrow> bool" where
  "isSuccess res = (case res of None \<Rightarrow> False | Some r \<Rightarrow> res_status r = ACK)"

text \<open>\<^verbatim>\<open>handleEventComplete\<close>, block by block. First the catch-up: an event that has no
  record in the history is counted and added now.\<close>

definition catchUp :: "event \<Rightarrow> string \<Rightarrow> manager \<Rightarrow> manager" where
  "catchUp ev isoNow st =
     (case find (\<lambda>e. ed_id e = ev_id ev) (s_events (m_state st)) of
        None \<Rightarrow> addEvent (eventDetailsOf ev isoNow) (st\<lparr>m_metrics := countEvent ev (m_metrics st)\<rparr>)
      | Some existingEvent \<Rightarrow> st)"

text \<open>The latency block: with a start time, push the latency, bound the buffer, delete
  the timer.\<close>

definition recordLatency :: "event \<Rightarrow> int \<Rightarrow> manager \<Rightarrow> manager" where
  "recordLatency ev now st =
     (case startTimeOf st (ev_id ev) of
        None \<Rightarrow> st
      | Some t \<Rightarrow>
          st\<lparr>m_metrics := (m_metrics st)
                \<lparr>im_latencies := pushLatency (now - t) (im_latencies (m_metrics st)),
                 im_eventTimers := (im_eventTimers (m_metrics st))(ev_id ev := None)\<rparr>\<rparr>)"

text \<open>The received counters: the recipient is read from the event itself, without a
  default.\<close>

definition countReceived ::
  "event \<Rightarrow> event_result option \<Rightarrow> subscriptions reply \<Rightarrow> manager \<Rightarrow> manager" where
  "countReceived ev res subs st =
     (if isSuccess res
      then (if ev_recipient ev = Some ''*''
            then (case res of
                    None \<Rightarrow> st
                  | Some r \<Rightarrow> handleBroadcastEventComplete ev r subs st)
            else if truthy (ev_recipient ev)
            then st\<lparr>m_metrics := (m_metrics st)
                      \<lparr>im_clientEventsReceived :=
                         bump (im_clientEventsReceived (m_metrics st))
                              (or_else (ev_recipient ev) [])\<rparr>\<rparr>
            else st)
      else st)"

definition recordDelivery :: "event \<Rightarrow> event_result option \<Rightarrow> manager \<Rightarrow> manager" where
  "recordDelivery ev res st =
     (if isSuccess res
      then st\<lparr>m_metrics := (m_metrics st)
                \<lparr>im_acks := tally_incr (im_acks (m_metrics st)) (ev_type ev)\<rparr>\<rparr>
      else st\<lparr>m_metrics := (m_metrics st)
                \<lparr>im_nacks := tally_incr (im_nacks (m_metrics st)) (ev_type ev)\<rparr>\<rparr>)"

definition completionUpdate :: "event_result option \<Rightarrow> int option \<Rightarrow> int \<Rightarrow> event_update" where
  "completionUpdate res startTime now =
     \<lparr>up_status = (if isSuccess res then Delivered else Failed),
      up_deliveryResult = \<lparr>dr_success = isSuccess res, dr_handled = isSuccess res\<rparr>,
      up_brokerResponse = res,
      up_latency = (case startTime of None \<Rightarrow> None | Some t \<Rightarrow> Some (now - t))\<rparr>"

definition handleEventComplete ::
  "event \<Rightarrow> event_result option \<Rightarrow> post_env \<Rightarrow> manager \<Rightarrow> manager" where
  "handleEventComplete ev res env st =
     (let st1 = catchUp ev (pe_iso env) st;
          startTime = startTimeOf st1 (ev_id ev);
          st2 = recordLatency ev (pe_now1 env) st1;
          st3 = countReceived ev res (pe_subscriptions env) st2;
          st4 = recordDelivery ev res st3
      in updateEvent (ev_id ev) (completionUpdate res startTime (pe_now2 env)) st4)"

definition countEventsSentByClient :: "manager \<Rightarrow> string \<Rightarrow> nat" where
  "countEventsSentByClient st clientId = count_of (im_clientEventsSent (m_metrics st)) clientId"

definition countEventsReceivedByClient :: "manager \<Rightarrow> string \<Rightarrow> nat" where
  "countEventsReceivedByClient st clientId =
     count_of (im_clientEventsReceived (m_metrics st)) clientId"

section \<open>Snapshot production\<close>

definition subscriptionsOf :: "subscriptions \<Rightarrow> string \<Rightarrow> string list" where
  "subscriptionsOf table clientId = (case map_of table clientId of None \<Rightarrow> [] | Some tys \<Rightarrow> tys)"

definition guessClientType :: "string \<Rightarrow> client_type" where
  "guessClientType clientId =
     (if sublist ''websocket'' clientId \<or> sublist ''ws'' clientId then WebSocketClient
      else if sublist ''postmessage'' clientId \<or> sublist ''iframe'' clientId then PostMessageClient
      else if sublist ''worker'' clientId then WorkerClient
      else InMemoryClient)"

definition clientInfoOf ::
  "manager \<Rightarrow> subscriptions \<Rightarrow> string \<Rightarrow> string \<times> client_type option \<Rightarrow> client_info" where
  "clientInfoOf st table isoNow inst =
     \<lparr>ci_id = fst inst,
      ci_type = (case snd inst of None \<Rightarrow> guessClientType (fst inst) | Some ty \<Rightarrow> ty),
      ci_subscriptions = subscriptionsOf table (fst inst),
      ci_eventsReceived = countEventsReceivedByClient st (fst inst),
      ci_eventsSent = countEventsSentByClient st (fst inst),
      ci_lastActivity = isoNow,
      ci_status = Active\<rparr>"

text \<open>\<^verbatim>\<open>buildClientsInfo\<close>: every failure of a broker query ends in the empty list. A missing
  \<^verbatim>\<open>getAllClients\<close> gives no clients; a missing \<^verbatim>\<open>getSubscriptions\<close> gives the empty table;
  a table that is \<^verbatim>\<open>null\<close> makes the first lookup throw, which is caught.\<close>

definition buildClientsInfo :: "manager \<Rightarrow> broker_view \<Rightarrow> string \<Rightarrow> client_info list" where
  "buildClientsInfo st bv isoNow =
     (if \<not> m_broker st then []
      else case bv_clients bv of
             Missing \<Rightarrow> []
           | Throws \<Rightarrow> []
           | Returned None \<Rightarrow> []
           | Returned (Some allClients) \<Rightarrow>
               (case bv_subscriptions bv of
                  Missing \<Rightarrow> map (clientInfoOf st [] isoNow) allClients
                | Throws \<Rightarrow> []
                | Returned None \<Rightarrow> []
                | Returned (Some table) \<Rightarrow> map (clientInfoOf st table isoNow) allClients))"

definition calculateSuccessRate :: "manager \<Rightarrow> real" where
  "calculateSuccessRate st =
     (let total = t_total (im_acks (m_metrics st)) + t_total (im_nacks (m_metrics st))
      in if total > 0 then real (t_total (im_acks (m_metrics st))) / real total else 0)"

definition getMemoryUsage :: "string option \<Rightarrow> string" where
  "getMemoryUsage mem = (case mem of None \<Rightarrow> ''N/A'' | Some text \<Rightarrow> text)"

definition buildPerformanceMetrics :: "manager \<Rightarrow> int \<Rightarrow> string option \<Rightarrow> performance_metrics" where
  "buildPerformanceMetrics st now mem =
     (let latencies = im_latencies (m_metrics st);
          uptimeSeconds = real_of_int (now - im_startTime (m_metrics st)) / 1000
      in \<lparr>pm_totalEvents = im_total (m_metrics st),
          pm_eventsPerSecond =
            (if uptimeSeconds > 0 then real (im_total (m_metrics st)) / uptimeSeconds else 0),
          pm_averageLatency =
            (if length latencies > 0
             then real_of_int (sum_list latencies) / real (length latencies) else 0),
          pm_minLatency = (if length latencies > 0 then Min (set latencies) else 0),
          pm_maxLatency = (if length latencies > 0 then Max (set latencies) else 0),
          pm_memoryUsage = getMemoryUsage mem,
          pm_uptime = \<lfloor>uptimeSeconds\<rfloor>,
          pm_successRate = calculateSuccessRate st\<rparr>)"

definition buildDeliveryStats :: "manager \<Rightarrow> delivery_stats" where
  "buildDeliveryStats st =
     \<lparr>ds_shared = True,
      ds_totalDelivery = t_total (im_acks (m_metrics st)) + t_total (im_nacks (m_metrics st)),
      ds_successRate = calculateSuccessRate st\<rparr>"

text \<open>The tallies a reader of the snapshot sees under \<^verbatim>\<open>deliveryStats.acks\<close> and
  \<^verbatim>\<open>deliveryStats.nacks\<close>.\<close>

definition ds_acks :: "manager \<Rightarrow> tally" where
  "ds_acks st = (if ds_shared (s_deliveryStats (m_state st)) then im_acks (m_metrics st) else zero_tally)"

definition ds_nacks :: "manager \<Rightarrow> tally" where
  "ds_nacks st = (if ds_shared (s_deliveryStats (m_state st)) then im_nacks (m_metrics st) else zero_tally)"

text \<open>\<^verbatim>\<open>updateInternalState\<close>. The three builders do not throw (\<^verbatim>\<open>buildClientsInfo\<close> catches
  its own errors), so the \<^verbatim>\<open>catch\<close> branch is not part of the model.\<close>

definition updateInternalState :: "tick_env \<Rightarrow> manager \<Rightarrow> manager" where
  "updateInternalState env st =
     updateStatePartial
       (\<lambda>s. s\<lparr>s_clients := buildClientsInfo st (te_broker env) (te_iso env),
              s_metrics := buildPerformanceMetrics st (te_now env) (te_memory env),
              s_deliveryStats := buildDeliveryStats st,
              s_isConnected := True,
              s_lastUpdate := te_iso env\<rparr>)
       st"

section \<open>Construction, attach and detach\<close>

definition getInitialState :: "config \<Rightarrow> string \<Rightarrow> devtools_state" where
  "getInitialState cfg isoNow =
     \<lparr>s_settings =
        \<lparr>set_isOpen = False,
         set_position = cfg_position cfg,
         set_activeTab = TabOverview,
         set_eventFilters = \<lparr>ef_types = [], ef_sources = [], ef_recipients = [], ef_status = []\<rparr>,
         set_maxEvents = 1000,
         set_autoScroll = True,
         set_showTimestamps = True\<rparr>,
      s_events = [],
      s_clients = [],
      s_metrics =
        \<lparr>pm_totalEvents = 0, pm_eventsPerSecond = 0, pm_averageLatency = 0, pm_minLatency = 0,
         pm_maxLatency = 0, pm_memoryUsage = ''N/A'', pm_uptime = 0, pm_successRate = 0\<rparr>,
      s_deliveryStats = \<lparr>ds_shared = False, ds_totalDelivery = 0, ds_successRate = 0\<rparr>,
      s_isConnected = False,
      s_lastUpdate = isoNow\<rparr>"

definition makeConfig :: "config_patch \<Rightarrow> config" where
  "makeConfig p =
     \<lparr>cfg_position = (case cp_position p of None \<Rightarrow> PosBottom | Some v \<Rightarrow> v),
      cfg_theme = (case cp_theme p of None \<Rightarrow> ThemeAuto | Some v \<Rightarrow> v),
      cfg_maxEventHistory = (case cp_maxEventHistory p of None \<Rightarrow> 1000 | Some v \<Rightarrow> v),
      cfg_updateInterval = (case cp_updateInterval p of None \<Rightarrow> 1000 | Some v \<Rightarrow> v),
      cfg_enablePersistence = (case cp_enablePersistence p of None \<Rightarrow> True | Some v \<Rightarrow> v)\<rparr>"

definition noConfig :: config_patch where
  "noConfig = \<lparr>cp_position = None, cp_theme = None, cp_maxEventHistory = None,
               cp_updateInterval = None, cp_enablePersistence = None\<rparr>"

definition initialMetrics :: "int \<Rightarrow> internal_metrics" where
  "initialMetrics now =
     \<lparr>im_total = 0, im_byType = Map.empty, im_latencies = [],
      im_acks = zero_tally, im_nacks = zero_tally,
      im_startTime = now, im_eventTimers = Map.empty,
      im_clientEventsSent = Map.empty, im_clientEventsReceived = Map.empty\<rparr>"

text \<open>\<^verbatim>\<open>loadPersistedState\<close>: the stored settings, written by \<open>persistState\<close> with every
  field present, replace the initial ones.\<close>

definition loadPersistedState :: "manager \<Rightarrow> manager" where
  "loadPersistedState st =
     (if \<not> cfg_enablePersistence (m_config st) then st
      else case m_storage st of
             None \<Rightarrow> st
           | Some saved \<Rightarrow> st\<lparr>m_state := (m_state st)\<lparr>s_settings := saved\<rparr>\<rparr>)"

text \<open>The constructor, given the partial configuration, the content of local storage, and
  the clock.\<close>

definition newManager :: "config_patch \<Rightarrow> settings option \<Rightarrow> int \<Rightarrow> string \<Rightarrow> manager" where
  "newManager p stored now isoNow =
     loadPersistedState
       \<lparr>m_broker = False,
        m_state = getInitialState (makeConfig p) isoNow,
        m_config = makeConfig p,
        m_listeners = {},
        m_updateInterval = None,
        m_metrics = initialMetrics now,
        m_storage = stored\<rparr>"

definition startPeriodicUpdates :: "nat \<Rightarrow> manager \<Rightarrow> effect list \<times> manager" where
  "startPeriodicUpdates handle st =
     ([SetInterval handle (cfg_updateInterval (m_config st))],
      st\<lparr>m_updateInterval := Some handle\<rparr>)"

definition stopPeriodicUpdates :: "manager \<Rightarrow> effect list \<times> manager" where
  "stopPeriodicUpdates st =
     (case m_updateInterval st of
        None \<Rightarrow> ([], st)
      | Some handle \<Rightarrow> ([ClearInterval handle], st\<lparr>m_updateInterval := None\<rparr>))"

definition cleanup :: "manager \<Rightarrow> manager" where
  "cleanup st = st\<lparr>m_listeners := {}\<rparr>"

text \<open>The unregister functions that \<^verbatim>\<open>attachTo\<close> collects, in the order of registration.
  The subscription hook is optional, and a failure to register it is caught.\<close>

definition cleanupFunctions :: "subscribe_hook \<Rightarrow> hook list" where
  "cleanupFunctions sh = (if sh = HookPresent then [OnSubscribe] else []) @ [BeforeSend, AfterSend]"

text \<open>\<^verbatim>\<open>attachTo\<close> returns the unregister functions it collected (the closure it returns
  in the source is \<open>detach\<close> applied to them), the effects it issued, and the new
  manager.\<close>

definition attachTo ::
  "subscribe_hook \<Rightarrow> nat \<Rightarrow> tick_env \<Rightarrow> manager \<Rightarrow> hook list \<times> effect list \<times> manager" where
  "attachTo sh handle env st =
     (let st1 = st\<lparr>m_broker := True\<rparr>;
          started = startPeriodicUpdates handle st1
      in (cleanupFunctions sh, fst started, updateInternalState env (snd started)))"

definition detach :: "hook list \<Rightarrow> manager \<Rightarrow> effect list \<times> manager" where
  "detach fs st =
     (let unhooked = map UnregisterHook fs;
          stopped = stopPeriodicUpdates st
      in (unhooked @ fst stopped, cleanup (snd stopped)))"

section \<open>Test messages\<close>

text \<open>\<^verbatim>\<open>sendTestMessage\<close> returns the broker commands it called and whether it threw.
  \<open>throws\<close> says whether the broker's command throws.\<close>

definition sendTestMessage ::
  "string \<Rightarrow> string \<Rightarrow> test_options option \<Rightarrow> bool \<Rightarrow> manager \<Rightarrow> effect list \<times> (send_error + unit)" where
  "sendTestMessage eventType payload options throws st =
     (if \<not> m_broker st then ([], Inr ())
      else
        let sender = or_else (case options of None \<Rightarrow> None | Some opts \<Rightarrow> opt_source opts) ''devtools'';
            recipient = (case options of None \<Rightarrow> None | Some opts \<Rightarrow> opt_recipient opts);
            outcome = (if throws then Inl SendFailed else Inr ())
        in if truthy recipient \<and> recipient \<noteq> Some ''*''
           then ([SendTo eventType sender (or_else recipient []) payload], outcome)
           else ([Broadcast eventType sender payload], outcome))"

section \<open>Runs\<close>

fun notify :: "notification \<Rightarrow> manager \<Rightarrow> manager" where
  "notify (PreSend ev now isoNow) st = handleEventStart ev now isoNow st"
| "notify (PostSend ev res env) st = handleEventComplete ev res env st"

fun run :: "notification list \<Rightarrow> manager \<Rightarrow> manager" where
  "run [] st = st"
| "run (n # ns) st = run ns (notify n st)"

fun perform :: "operation \<Rightarrow> manager \<Rightarrow> manager" where
  "perform (Notify n) st = notify n st"
| "perform (Tick env) st = updateInternalState env st"
| "perform ClearEvents st = clearEvents st"
| "perform (UpdateSettings p) st = updateSettings p st"

fun runOps :: "operation list \<Rightarrow> manager \<Rightarrow> manager" where
  "runOps [] st = st"
| "runOps (x # xs) st = runOps xs (perform x st)"

text \<open>A manager that was constructed and then attached to a broker.\<close>

definition attachedManager ::
  "config_patch \<Rightarrow> settings option \<Rightarrow> int \<Rightarrow> string \<Rightarrow> subscribe_hook \<Rightarrow> nat \<Rightarrow> tick_env \<Rightarrow> manager" where
  "attachedManager p stored now isoNow sh handle env =
     snd (snd (attachTo sh handle env (newManager p stored now isoNow)))"

subsection \<open>Reading a run\<close>

fun eventOf :: "notification \<Rightarrow> event" where
  "eventOf (PreSend ev now isoNow) = ev"
| "eventOf (PostSend ev res env) = ev"

fun isPostSend :: "notification \<Rightarrow> bool" where
  "isPostSend (PreSend ev now isoNow) = False"
| "isPostSend (PostSend ev res env) = True"

definition idsOf :: "notification list \<Rightarrow> string set" where
  "idsOf ns = set (map (\<lambda>n. ev_id (eventOf n)) ns)"

text \<open>Every pre-send notification is the first notification of its id: \<open>seen\<close> are the ids
  notified so far.\<close>

fun preSendsFirst :: "string set \<Rightarrow> notification list \<Rightarrow> bool" where
  "preSendsFirst seen [] = True"
| "preSendsFirst seen (n # ns) =
     ((isPostSend n \<or> ev_id (eventOf n) \<notin> seen) \<and> preSendsFirst (insert (ev_id (eventOf n)) seen) ns)"

text \<open>The latency sample that a notification appends to the buffer, if any, and the
  samples appended during a run, in order.\<close>

fun sampleOf :: "manager \<Rightarrow> notification \<Rightarrow> int list" where
  "sampleOf st (PreSend ev now isoNow) = []"
| "sampleOf st (PostSend ev res env) =
     (case startTimeOf st (ev_id ev) of None \<Rightarrow> [] | Some t \<Rightarrow> [pe_now1 env - t])"

fun samplesOf :: "manager \<Rightarrow> notification list \<Rightarrow> int list" where
  "samplesOf st [] = []"
| "samplesOf st (n # ns) = sampleOf st n @ samplesOf (notify n st) ns"


definition postedIds :: "notification list \<Rightarrow> string list" where
  "postedIds ns = map (\<lambda>n. ev_id (eventOf n)) (filter isPostSend ns)"

definition completedRecords :: "manager \<Rightarrow> event_details list" where
  "completedRecords st = filter (\<lambda>e. ed_status e \<noteq> Pending) (s_events (m_state st))"

section \<open>Sample inputs\<close>

text \<open>A broadcast \<open>ping\<close> from client \<open>A\<close>, the same event without a recipient field, a
  unicast to \<open>B\<close>, the two results of the broker, and a broker whose table says that \<open>B\<close>
  and \<open>A\<close> are subscribed to \<open>ping\<close>.\<close>

definition pingEvent :: "string \<Rightarrow> string option \<Rightarrow> event" where
  "pingEvent i recipient =
     \<lparr>ev_id = i, ev_type = ''ping'', ev_source = ''A'', ev_time = None, ev_data = None,
      ev_recipient = recipient\<rparr>"

definition ackResult :: event_result where
  "ackResult = \<lparr>res_status = ACK, res_message = ''ok'', res_timestamp = 0,
                res_clientId = None, res_data = None\<rparr>"

definition nackResult :: event_result where
  "nackResult = \<lparr>res_status = NACK, res_message = ''no'', res_timestamp = 0,
                 res_clientId = None, res_data = None\<rparr>"

definition pingTable :: subscriptions where
  "pingTable = [(''A'', [''ping'']), (''B'', [''ping'', ''pong'']), (''C'', [''pong''])]"

definition postEnv :: "int \<Rightarrow> post_env" where
  "postEnv now = \<lparr>pe_now1 = now, pe_now2 = now, pe_iso = ''t'',
                  pe_subscriptions = Returned (Some pingTable)\<rparr>"

definition quietTick :: tick_env where
  "quietTick = \<lparr>te_now = 10, te_iso = ''t'', te_memory = None,
                te_broker = \<lparr>bv_clients = Missing, bv_subscriptions = Missing\<rparr>\<rparr>"

text \<open>A manager with the default configuration, attached, and one whose history holds a
  single record.\<close>

definition defaultManager :: manager where
  "defaultManager = attachedManager noConfig None 1 ''t'' HookAbsent 1 quietTick"





section \<open>Frame lemmas\<close>

lemma persistState_frame [simp]:
  "m_broker (persistState st) = m_broker st"
  "m_state (persistState st) = m_state st"
  "m_config (persistState st) = m_config st"
  "m_listeners (persistState st) = m_listeners st"
  "m_updateInterval (persistState st) = m_updateInterval st"
  "m_metrics (persistState st) = m_metrics st"
  by (simp_all add: persistState_def)

lemma updateStatePartial_frame [simp]:
  "m_broker (updateStatePartial f st) = m_broker st"
  "m_state (updateStatePartial f st) = f (m_state st)"
  "m_config (updateStatePartial f st) = m_config st"
  "m_listeners (updateStatePartial f st) = m_listeners st"
  "m_updateInterval (updateStatePartial f st) = m_updateInterval st"
  "m_metrics (updateStatePartial f st) = m_metrics st"
  by (simp_all add: updateStatePartial_def)

lemma addEvent_frame [simp]:
  "m_broker (addEvent e st) = m_broker st"
  "m_config (addEvent e st) = m_config st"
  "m_listeners (addEvent e st) = m_listeners st"
  "m_updateInterval (addEvent e st) = m_updateInterval st"
  "m_metrics (addEvent e st) = m_metrics st"
  "s_settings (m_state (addEvent e st)) = s_settings (m_state st)"
  "s_clients (m_state (addEvent e st)) = s_clients (m_state st)"
  "s_metrics (m_state (addEvent e st)) = s_metrics (m_state st)"
  "s_deliveryStats (m_state (addEvent e st)) = s_deliveryStats (m_state st)"
  "s_isConnected (m_state (addEvent e st)) = s_isConnected (m_state st)"
  by (simp_all add: addEvent_def Let_def)

lemma addEvent_events:
  "s_events (m_state (addEvent e st)) =
     drop (Suc (length (s_events (m_state st))) - cfg_maxEventHistory (m_config st))
          (s_events (m_state st) @ [e])"
  by (simp add: addEvent_def Let_def)

lemma updateEvent_frame [simp]:
  "m_broker (updateEvent i u st) = m_broker st"
  "m_config (updateEvent i u st) = m_config st"
  "m_listeners (updateEvent i u st) = m_listeners st"
  "m_updateInterval (updateEvent i u st) = m_updateInterval st"
  "m_metrics (updateEvent i u st) = m_metrics st"
  "s_settings (m_state (updateEvent i u st)) = s_settings (m_state st)"
  "s_clients (m_state (updateEvent i u st)) = s_clients (m_state st)"
  "s_metrics (m_state (updateEvent i u st)) = s_metrics (m_state st)"
  "s_deliveryStats (m_state (updateEvent i u st)) = s_deliveryStats (m_state st)"
  "s_isConnected (m_state (updateEvent i u st)) = s_isConnected (m_state st)"
  by (simp_all add: updateEvent_def)

lemma updateEvent_events:
  "s_events (m_state (updateEvent i u st)) =
     map (\<lambda>e. if ed_id e = i then apply_update u e else e) (s_events (m_state st))"
  by (simp add: updateEvent_def)

lemma countEvent_frame [simp]:
  "im_total (countEvent ev im) = im_total im + 1"
  "im_latencies (countEvent ev im) = im_latencies im"
  "im_acks (countEvent ev im) = im_acks im"
  "im_nacks (countEvent ev im) = im_nacks im"
  "im_startTime (countEvent ev im) = im_startTime im"
  "im_eventTimers (countEvent ev im) = im_eventTimers im"
  "im_clientEventsReceived (countEvent ev im) = im_clientEventsReceived im"
  by (simp_all add: countEvent_def Let_def)

lemma startTimeOf_cong:
  "im_eventTimers (m_metrics st') = im_eventTimers (m_metrics st) \<Longrightarrow>
   startTimeOf st' i = startTimeOf st i"
  by (simp add: startTimeOf_def)

lemma catchUp_frame [simp]:
  "m_broker (catchUp ev t st) = m_broker st"
  "m_config (catchUp ev t st) = m_config st"
  "m_listeners (catchUp ev t st) = m_listeners st"
  "m_updateInterval (catchUp ev t st) = m_updateInterval st"
  "im_latencies (m_metrics (catchUp ev t st)) = im_latencies (m_metrics st)"
  "im_acks (m_metrics (catchUp ev t st)) = im_acks (m_metrics st)"
  "im_nacks (m_metrics (catchUp ev t st)) = im_nacks (m_metrics st)"
  "im_startTime (m_metrics (catchUp ev t st)) = im_startTime (m_metrics st)"
  "im_eventTimers (m_metrics (catchUp ev t st)) = im_eventTimers (m_metrics st)"
  "im_clientEventsReceived (m_metrics (catchUp ev t st)) = im_clientEventsReceived (m_metrics st)"
  "s_settings (m_state (catchUp ev t st)) = s_settings (m_state st)"
  "s_clients (m_state (catchUp ev t st)) = s_clients (m_state st)"
  "s_metrics (m_state (catchUp ev t st)) = s_metrics (m_state st)"
  "s_deliveryStats (m_state (catchUp ev t st)) = s_deliveryStats (m_state st)"
  "s_isConnected (m_state (catchUp ev t st)) = s_isConnected (m_state st)"
  by (simp_all add: catchUp_def split: option.split)

lemma catchUp_startTimeOf [simp]: "startTimeOf (catchUp ev t st) i = startTimeOf st i"
  by (simp add: startTimeOf_def)

lemma recordLatency_frame [simp]:
  "m_broker (recordLatency ev now st) = m_broker st"
  "m_config (recordLatency ev now st) = m_config st"
  "m_listeners (recordLatency ev now st) = m_listeners st"
  "m_updateInterval (recordLatency ev now st) = m_updateInterval st"
  "m_state (recordLatency ev now st) = m_state st"
  "im_total (m_metrics (recordLatency ev now st)) = im_total (m_metrics st)"
  "im_byType (m_metrics (recordLatency ev now st)) = im_byType (m_metrics st)"
  "im_acks (m_metrics (recordLatency ev now st)) = im_acks (m_metrics st)"
  "im_nacks (m_metrics (recordLatency ev now st)) = im_nacks (m_metrics st)"
  "im_startTime (m_metrics (recordLatency ev now st)) = im_startTime (m_metrics st)"
  "im_clientEventsSent (m_metrics (recordLatency ev now st)) = im_clientEventsSent (m_metrics st)"
  "im_clientEventsReceived (m_metrics (recordLatency ev now st)) = im_clientEventsReceived (m_metrics st)"
  by (simp_all add: recordLatency_def split: option.split)

lemma handleBroadcast_frame [simp]:
  "m_broker (handleBroadcastEventComplete ev r subs st) = m_broker st"
  "m_config (handleBroadcastEventComplete ev r subs st) = m_config st"
  "m_listeners (handleBroadcastEventComplete ev r subs st) = m_listeners st"
  "m_updateInterval (handleBroadcastEventComplete ev r subs st) = m_updateInterval st"
  "m_state (handleBroadcastEventComplete ev r subs st) = m_state st"
  "im_total (m_metrics (handleBroadcastEventComplete ev r subs st)) = im_total (m_metrics st)"
  "im_byType (m_metrics (handleBroadcastEventComplete ev r subs st)) = im_byType (m_metrics st)"
  "im_latencies (m_metrics (handleBroadcastEventComplete ev r subs st)) = im_latencies (m_metrics st)"
  "im_acks (m_metrics (handleBroadcastEventComplete ev r subs st)) = im_acks (m_metrics st)"
  "im_nacks (m_metrics (handleBroadcastEventComplete ev r subs st)) = im_nacks (m_metrics st)"
  "im_startTime (m_metrics (handleBroadcastEventComplete ev r subs st)) = im_startTime (m_metrics st)"
  "im_eventTimers (m_metrics (handleBroadcastEventComplete ev r subs st)) = im_eventTimers (m_metrics st)"
  "im_clientEventsSent (m_metrics (handleBroadcastEventComplete ev r subs st)) = im_clientEventsSent (m_metrics st)"
  by (simp_all add: handleBroadcastEventComplete_def split: reply.split option.split)

lemma countReceived_frame [simp]:
  "m_broker (countReceived ev res subs st) = m_broker st"
  "m_config (countReceived ev res subs st) = m_config st"
  "m_listeners (countReceived ev res subs st) = m_listeners st"
  "m_updateInterval (countReceived ev res subs st) = m_updateInterval st"
  "m_state (countReceived ev res subs st) = m_state st"
  "im_total (m_metrics (countReceived ev res subs st)) = im_total (m_metrics st)"
  "im_byType (m_metrics (countReceived ev res subs st)) = im_byType (m_metrics st)"
  "im_latencies (m_metrics (countReceived ev res subs st)) = im_latencies (m_metrics st)"
  "im_acks (m_metrics (countReceived ev res subs st)) = im_acks (m_metrics st)"
  "im_nacks (m_metrics (countReceived ev res subs st)) = im_nacks (m_metrics st)"
  "im_startTime (m_metrics (countReceived ev res subs st)) = im_startTime (m_metrics st)"
  "im_eventTimers (m_metrics (countReceived ev res subs st)) = im_eventTimers (m_metrics st)"
  "im_clientEventsSent (m_metrics (countReceived ev res subs st)) = im_clientEventsSent (m_metrics st)"
  by (simp_all add: countReceived_def split: option.split)

lemma recordDelivery_frame [simp]:
  "m_broker (recordDelivery ev res st) = m_broker st"
  "m_config (recordDelivery ev res st) = m_config st"
  "m_listeners (recordDelivery ev res st) = m_listeners st"
  "m_updateInterval (recordDelivery ev res st) = m_updateInterval st"
  "m_state (recordDelivery ev res st) = m_state st"
  "im_total (m_metrics (recordDelivery ev res st)) = im_total (m_metrics st)"
  "im_byType (m_metrics (recordDelivery ev res st)) = im_byType (m_metrics st)"
  "im_latencies (m_metrics (recordDelivery ev res st)) = im_latencies (m_metrics st)"
  "im_startTime (m_metrics (recordDelivery ev res st)) = im_startTime (m_metrics st)"
  "im_eventTimers (m_metrics (recordDelivery ev res st)) = im_eventTimers (m_metrics st)"
  "im_clientEventsSent (m_metrics (recordDelivery ev res st)) = im_clientEventsSent (m_metrics st)"
  "im_clientEventsReceived (m_metrics (recordDelivery ev res st)) = im_clientEventsReceived (m_metrics st)"
  by (simp_all add: recordDelivery_def)

lemma handleEventStart_frame [simp]:
  "m_broker (handleEventStart ev now t st) = m_broker st"
  "m_config (handleEventStart ev now t st) = m_config st"
  "m_listeners (handleEventStart ev now t st) = m_listeners st"
  "m_updateInterval (handleEventStart ev now t st) = m_updateInterval st"
  "im_total (m_metrics (handleEventStart ev now t st)) = im_total (m_metrics st) + 1"
  "im_latencies (m_metrics (handleEventStart ev now t st)) = im_latencies (m_metrics st)"
  "im_acks (m_metrics (handleEventStart ev now t st)) = im_acks (m_metrics st)"
  "im_nacks (m_metrics (handleEventStart ev now t st)) = im_nacks (m_metrics st)"
  "im_startTime (m_metrics (handleEventStart ev now t st)) = im_startTime (m_metrics st)"
  "im_clientEventsReceived (m_metrics (handleEventStart ev now t st)) = im_clientEventsReceived (m_metrics st)"
  by (simp_all add: handleEventStart_def Let_def)

lemma handleEventComplete_frame [simp]:
  "m_broker (handleEventComplete ev res env st) = m_broker st"
  "m_config (handleEventComplete ev res env st) = m_config st"
  "m_listeners (handleEventComplete ev res env st) = m_listeners st"
  "m_updateInterval (handleEventComplete ev res env st) = m_updateInterval st"
  "im_startTime (m_metrics (handleEventComplete ev res env st)) = im_startTime (m_metrics st)"
  by (simp_all add: handleEventComplete_def Let_def)

section \<open>The sample manager\<close>

lemma defaultManager_broker: "m_broker defaultManager"
  by (simp add: defaultManager_def attachedManager_def attachTo_def Let_def updateInternalState_def startPeriodicUpdates_def)

lemma defaultManager_timer: "m_updateInterval defaultManager = Some 1"
  by (simp add: defaultManager_def attachedManager_def attachTo_def Let_def updateInternalState_def startPeriodicUpdates_def)

lemma defaultManager_received: "im_clientEventsReceived (m_metrics defaultManager) = Map.empty"
  by (simp add: defaultManager_def attachedManager_def attachTo_def Let_def updateInternalState_def
      startPeriodicUpdates_def newManager_def loadPersistedState_def initialMetrics_def split: option.split)

lemma defaultManager_events: "s_events (m_state defaultManager) = []"
  by (simp add: defaultManager_def attachedManager_def attachTo_def Let_def updateInternalState_def
      startPeriodicUpdates_def newManager_def loadPersistedState_def getInitialState_def split: option.split)

lemma defaultManager_cap: "cfg_maxEventHistory (m_config defaultManager) = 1000"
  by (simp add: defaultManager_def attachedManager_def attachTo_def Let_def updateInternalState_def
      startPeriodicUpdates_def newManager_def loadPersistedState_def makeConfig_def noConfig_def split: option.split)

section \<open>What the hooks do to the history and the counters\<close>

lemma count_of_bump: "count_of (bump m k) c = (if c = k then count_of m k + 1 else count_of m c)"
  by (simp add: count_of_def bump_def)

lemma countBroadcast_absent:
  "k \<notin> fst ` set table \<Longrightarrow> count_of (countBroadcast ev table m) k = count_of m k"
  by (induction table arbitrary: m) (auto simp: count_of_bump)

lemma countBroadcast_count:
  "distinct (map fst table) \<Longrightarrow>
   count_of (countBroadcast ev table m) c =
     count_of m c + (if c \<noteq> ev_source ev \<and> (\<exists>tys. (c, tys) \<in> set table \<and> ev_type ev \<in> set tys)
                     then 1 else 0)"
proof (induction table arbitrary: m)
  case Nil
  then show ?case by simp
next
  case (Cons entry rest)
  obtain clientId eventTypes where entry: "entry = (clientId, eventTypes)"
    by (cases entry)
  from Cons.prems entry have absent: "clientId \<notin> fst ` set rest" and d: "distinct (map fst rest)"
    by auto
  from absent have fresh: "\<And>tys. (clientId, tys) \<notin> set rest"
    by (auto simp: image_iff)
  show ?case
  proof (cases "c = clientId")
    case True
    show ?thesis using fresh absent
      by (auto simp: True entry countBroadcast_absent count_of_bump)
  next
    case False
    let ?m' = "if clientId = ev_source ev then m
               else if ev_type ev \<in> set eventTypes then bump m clientId else m"
    have step: "countBroadcast ev (entry # rest) m = countBroadcast ev rest ?m'"
      by (simp add: entry)
    have same: "count_of ?m' c = count_of m c"
      using False by (simp add: count_of_bump)
    have mem: "(\<exists>tys. (c, tys) \<in> set (entry # rest) \<and> ev_type ev \<in> set tys)
               = (\<exists>tys. (c, tys) \<in> set rest \<and> ev_type ev \<in> set tys)"
      using False by (auto simp: entry)
    show ?thesis
      by (simp only: step Cons.IH [OF d] same mem)
  qed
qed

lemma handleEventComplete_received:
  "im_clientEventsReceived (m_metrics (handleEventComplete ev res env st)) =
   im_clientEventsReceived (m_metrics
     (countReceived ev res (pe_subscriptions env) (recordLatency ev (pe_now1 env) (catchUp ev (pe_iso env) st))))"
  by (simp add: handleEventComplete_def Let_def)

lemma countReceived_not_ack:
  "\<not> isSuccess res \<Longrightarrow> countReceived ev res subs st = st"
  by (simp add: countReceived_def)

lemma countReceived_no_recipient:
  "ev_recipient ev = None \<Longrightarrow> countReceived ev res subs st = st"
  by (simp add: countReceived_def truthy_def)

lemma countReceived_broadcast:
  "m_broker st \<Longrightarrow> res_status r = ACK \<Longrightarrow> ev_recipient ev = Some ''*'' \<Longrightarrow>
   im_clientEventsReceived (m_metrics (countReceived ev (Some r) (Returned (Some table)) st)) =
     countBroadcast ev table (im_clientEventsReceived (m_metrics st))"
  by (simp add: countReceived_def isSuccess_def handleBroadcastEventComplete_def)

lemma eventDetailsOf_id [simp]: "ed_id (eventDetailsOf ev t) = ev_id ev"
  by (simp add: eventDetailsOf_def)

lemma catchUp_events:
  "s_events (m_state (catchUp ev t st)) =
     (if ev_id ev \<in> ed_id ` set (s_events (m_state st)) then s_events (m_state st)
      else drop (Suc (length (s_events (m_state st))) - cfg_maxEventHistory (m_config st))
                (s_events (m_state st) @ [eventDetailsOf ev t]))"
proof (cases "find (\<lambda>e. ed_id e = ev_id ev) (s_events (m_state st))")
  case None
  then have "ev_id ev \<notin> ed_id ` set (s_events (m_state st))"
    by (auto simp: find_None_iff)
  with None show ?thesis by (simp add: catchUp_def addEvent_events)
next
  case (Some a)
  then have "find (\<lambda>e. ed_id e = ev_id ev) (s_events (m_state st)) \<noteq> None" by simp
  then obtain x where "x \<in> set (s_events (m_state st))" "ed_id x = ev_id ev"
    by (auto simp: find_None_iff)
  then have "ev_id ev \<in> ed_id ` set (s_events (m_state st))"
    by (metis imageI)
  with Some show ?thesis by (simp add: catchUp_def)
qed

lemma handleEventComplete_events:
  "s_events (m_state (handleEventComplete ev res env st)) =
     map (\<lambda>e. if ed_id e = ev_id ev
              then apply_update (completionUpdate res (startTimeOf st (ev_id ev)) (pe_now2 env)) e
              else e)
         (s_events (m_state (catchUp ev (pe_iso env) st)))"
  by (simp add: handleEventComplete_def Let_def updateEvent_events)

lemma handleEventStart_events:
  "s_events (m_state (handleEventStart ev now t st)) =
     drop (Suc (length (s_events (m_state st))) - cfg_maxEventHistory (m_config st))
          (s_events (m_state st) @ [eventDetailsOf ev t])"
  by (simp add: handleEventStart_def Let_def addEvent_events)

section \<open>Received counters of a broadcast\<close>

text \<open>
  Claim C2. A post-send notification with status ACK for an event whose recipient is \<open>*\<close>,
  handled by an attached manager whose broker answers \<^verbatim>\<open>getSubscriptions()\<close> with a table:
  the received counter of every client of the table that is subscribed to the event's type
  and is not the sender goes up by exactly 1, and the counter of every other client stays
  as it was. A post-send notification without a result, or with a status other than ACK,
  changes no received counter.
\<close>

theorem broadcast_ack_counts_each_subscriber_once:
  "(m_broker st \<and> pe_subscriptions env = Returned (Some table) \<and> distinct (map fst table)
      \<and> ev_recipient ev = Some ''*'' \<and> res_status r = ACK \<longrightarrow>
      (\<forall>c tys. (c, tys) \<in> set table \<and> ev_type ev \<in> set tys \<and> c \<noteq> ev_source ev \<longrightarrow>
         countEventsReceivedByClient (handleEventComplete ev (Some r) env st) c
           = countEventsReceivedByClient st c + 1)
      \<and> (\<forall>c. c = ev_source ev \<or> (\<forall>tys. (c, tys) \<in> set table \<longrightarrow> ev_type ev \<notin> set tys) \<longrightarrow>
         countEventsReceivedByClient (handleEventComplete ev (Some r) env st) c
           = countEventsReceivedByClient st c))
   \<and> (res = None \<or> (\<exists>r'. res = Some r' \<and> res_status r' \<noteq> ACK) \<longrightarrow>
        (\<forall>c. countEventsReceivedByClient (handleEventComplete ev res env st) c
           = countEventsReceivedByClient st c))"
proof (intro conjI impI)
  assume h: "m_broker st \<and> pe_subscriptions env = Returned (Some table) \<and> distinct (map fst table)
      \<and> ev_recipient ev = Some ''*'' \<and> res_status r = ACK"
  let ?st2 = "recordLatency ev (pe_now1 env) (catchUp ev (pe_iso env) st)"
  have b: "m_broker ?st2" using h by simp
  have eq: "im_clientEventsReceived (m_metrics (handleEventComplete ev (Some r) env st)) =
      countBroadcast ev table (im_clientEventsReceived (m_metrics st))"
    using h countReceived_broadcast [OF b, of r ev table]
    by (simp add: handleEventComplete_received)
  show "\<forall>c tys. (c, tys) \<in> set table \<and> ev_type ev \<in> set tys \<and> c \<noteq> ev_source ev \<longrightarrow>
         countEventsReceivedByClient (handleEventComplete ev (Some r) env st) c
           = countEventsReceivedByClient st c + 1"
    using h by (auto simp: eq countBroadcast_count countEventsReceivedByClient_def)
  show "\<forall>c. c = ev_source ev \<or> (\<forall>tys. (c, tys) \<in> set table \<longrightarrow> ev_type ev \<notin> set tys) \<longrightarrow>
         countEventsReceivedByClient (handleEventComplete ev (Some r) env st) c
           = countEventsReceivedByClient st c"
    using h by (auto simp: eq countBroadcast_count countEventsReceivedByClient_def)
next
  assume "res = None \<or> (\<exists>r'. res = Some r' \<and> res_status r' \<noteq> ACK)"
  then have "\<not> isSuccess res" by (auto simp: isSuccess_def)
  then show "\<forall>c. countEventsReceivedByClient (handleEventComplete ev res env st) c
           = countEventsReceivedByClient st c"
    by (simp add: countEventsReceivedByClient_def handleEventComplete_received countReceived_not_ack)
qed

theorem broadcast_ack_counts_each_subscriber_once_witness:
  "m_broker defaultManager \<and> pe_subscriptions (postEnv 9) = Returned (Some pingTable)
   \<and> distinct (map fst pingTable) \<and> ev_recipient (pingEvent ''a'' (Some ''*'')) = Some ''*''
   \<and> res_status ackResult = ACK
   \<and> countEventsReceivedByClient
        (handleEventComplete (pingEvent ''a'' (Some ''*'')) (Some ackResult) (postEnv 9) defaultManager) ''B'' = 1
   \<and> countEventsReceivedByClient
        (handleEventComplete (pingEvent ''a'' (Some ''*'')) (Some ackResult) (postEnv 9) defaultManager) ''A'' = 0
   \<and> countEventsReceivedByClient
        (handleEventComplete (pingEvent ''a'' (Some ''*'')) (Some ackResult) (postEnv 9) defaultManager) ''C'' = 0
   \<and> countEventsReceivedByClient
        (handleEventComplete (pingEvent ''a'' (Some ''*'')) (Some nackResult) (postEnv 9) defaultManager) ''B'' = 0"
proof -
  let ?ev = "pingEvent ''a'' (Some ''*'')"
  have h: "m_broker defaultManager \<and> pe_subscriptions (postEnv 9) = Returned (Some pingTable)
      \<and> distinct (map fst pingTable) \<and> ev_recipient ?ev = Some ''*'' \<and> res_status ackResult = ACK"
    by (simp add: defaultManager_broker postEnv_def pingTable_def pingEvent_def ackResult_def)
  have n: "Some nackResult = None \<or> (\<exists>r'. Some nackResult = Some r' \<and> res_status r' \<noteq> ACK)"
    by (simp add: nackResult_def)
  have zero: "countEventsReceivedByClient defaultManager c = 0" for c
    by (simp add: countEventsReceivedByClient_def defaultManager_received count_of_def)
  note t = broadcast_ack_counts_each_subscriber_once
             [of defaultManager "postEnv 9" pingTable ?ev ackResult "Some nackResult"]
  from t h have inc: "\<forall>c tys. (c, tys) \<in> set pingTable \<and> ev_type ?ev \<in> set tys \<and> c \<noteq> ev_source ?ev \<longrightarrow>
         countEventsReceivedByClient (handleEventComplete ?ev (Some ackResult) (postEnv 9) defaultManager) c
           = countEventsReceivedByClient defaultManager c + 1"
    by blast
  from t h have same: "\<forall>c. c = ev_source ?ev \<or> (\<forall>tys. (c, tys) \<in> set pingTable \<longrightarrow> ev_type ?ev \<notin> set tys) \<longrightarrow>
         countEventsReceivedByClient (handleEventComplete ?ev (Some ackResult) (postEnv 9) defaultManager) c
           = countEventsReceivedByClient defaultManager c"
    by blast
  from t n have nack: "\<forall>c. countEventsReceivedByClient (handleEventComplete ?ev (Some nackResult) (postEnv 9) defaultManager) c
           = countEventsReceivedByClient defaultManager c"
    by blast
  have b: "countEventsReceivedByClient (handleEventComplete ?ev (Some ackResult) (postEnv 9) defaultManager) ''B'' = 1"
    using inc [rule_format, of "''B''" "[''ping'', ''pong'']"]
    by (simp add: zero pingTable_def pingEvent_def)
  have a: "countEventsReceivedByClient (handleEventComplete ?ev (Some ackResult) (postEnv 9) defaultManager) ''A'' = 0"
    using same [rule_format, of "''A''"]
    by (simp add: zero pingEvent_def)
  have c: "countEventsReceivedByClient (handleEventComplete ?ev (Some ackResult) (postEnv 9) defaultManager) ''C'' = 0"
    using same [rule_format, of "''C''"]
    by (simp add: zero pingTable_def pingEvent_def)
  show ?thesis using h a b c nack by (simp add: zero)
qed

section \<open>Clearing the history\<close>

text \<open>
  Claim C6. \<^verbatim>\<open>clearEvents\<close> leaves the history empty and changes none of the internal
  metrics (per-client sent and received counters, ACK and NACK totals and per-type tallies,
  latency buffer), nor the other parts of the snapshot, the configuration, the broker
  reference, the listeners or the timer.
\<close>

theorem clearEvents_only_history:
  "s_events (m_state (clearEvents st)) = []
   \<and> m_metrics (clearEvents st) = m_metrics st
   \<and> countEventsSentByClient (clearEvents st) c = countEventsSentByClient st c
   \<and> countEventsReceivedByClient (clearEvents st) c = countEventsReceivedByClient st c
   \<and> ds_acks (clearEvents st) = ds_acks st
   \<and> ds_nacks (clearEvents st) = ds_nacks st
   \<and> s_deliveryStats (m_state (clearEvents st)) = s_deliveryStats (m_state st)
   \<and> s_metrics (m_state (clearEvents st)) = s_metrics (m_state st)
   \<and> s_clients (m_state (clearEvents st)) = s_clients (m_state st)
   \<and> s_settings (m_state (clearEvents st)) = s_settings (m_state st)
   \<and> s_isConnected (m_state (clearEvents st)) = s_isConnected (m_state st)
   \<and> s_lastUpdate (m_state (clearEvents st)) = s_lastUpdate (m_state st)
   \<and> m_config (clearEvents st) = m_config st
   \<and> m_broker (clearEvents st) = m_broker st
   \<and> m_listeners (clearEvents st) = m_listeners st
   \<and> m_updateInterval (clearEvents st) = m_updateInterval st"
  by (simp add: clearEvents_def countEventsSentByClient_def countEventsReceivedByClient_def
      ds_acks_def ds_nacks_def)

section \<open>Detaching\<close>

text \<open>
  Claim C7, as the code has it. A call of the detach function first calls the unregister
  functions of the hooks, in the order of registration, and only then stops the timer.
  A second call leaves the manager as the first call left it and clears no timer; it does
  call the unregister functions again.
\<close>

theorem detach_unhooks_then_stops_timer:
  "fst (detach fs st) = map UnregisterHook fs @ fst (stopPeriodicUpdates st)
   \<and> snd (detach fs (snd (detach fs st))) = snd (detach fs st)
   \<and> fst (detach fs (snd (detach fs st))) = map UnregisterHook fs"
  by (simp add: detach_def stopPeriodicUpdates_def cleanup_def Let_def split: option.split)

text \<open>The order claimed in C7 (timer first, hooks afterwards) is not the order of the code:
  for a manager attached to a broker with all three hooks, the timer is cleared last.\<close>

theorem detach_order_counterexample:
  "fst (detach (cleanupFunctions HookPresent) defaultManager) =
     [UnregisterHook OnSubscribe, UnregisterHook BeforeSend, UnregisterHook AfterSend, ClearInterval 1]
   \<and> fst (detach (cleanupFunctions HookPresent) defaultManager) \<noteq>
     [ClearInterval 1, UnregisterHook OnSubscribe, UnregisterHook BeforeSend, UnregisterHook AfterSend]"
  by (simp add: detach_def stopPeriodicUpdates_def cleanupFunctions_def Let_def defaultManager_timer)

section \<open>Dispatch of test messages\<close>

text \<open>
  Claim C9, as the code has it. With a broker attached, \<^verbatim>\<open>sendTestMessage\<close> calls exactly one
  command. It is the broadcast command when no options are given or when the recipient is
  absent, empty or \<open>*\<close>; it is the unicast command, with that recipient, when the recipient
  is a non-empty string other than \<open>*\<close>.
\<close>

theorem sendTestMessage_dispatch:
  "m_broker st \<Longrightarrow>
   fst (sendTestMessage ty payload None throws st) = [Broadcast ty ''devtools'' payload]
   \<and> (opt_recipient opts \<in> {None, Some [], Some ''*''} \<longrightarrow>
        fst (sendTestMessage ty payload (Some opts) throws st)
          = [Broadcast ty (or_else (opt_source opts) ''devtools'') payload])
   \<and> (\<forall>r. opt_recipient opts = Some r \<and> r \<noteq> [] \<and> r \<noteq> ''*'' \<longrightarrow>
        fst (sendTestMessage ty payload (Some opts) throws st)
          = [SendTo ty (or_else (opt_source opts) ''devtools'') r payload])"
  by (auto simp add: sendTestMessage_def Let_def truthy_def or_else_def)

theorem sendTestMessage_dispatch_witness:
  "m_broker defaultManager
   \<and> fst (sendTestMessage ''x'' ''{}'' None False defaultManager) = [Broadcast ''x'' ''devtools'' ''{}'']
   \<and> fst (sendTestMessage ''x'' ''{}'' (Some \<lparr>opt_recipient = Some ''*'', opt_source = Some ''A''\<rparr>) False defaultManager)
       = [Broadcast ''x'' ''A'' ''{}'']
   \<and> fst (sendTestMessage ''x'' ''{}'' (Some \<lparr>opt_recipient = Some ''B'', opt_source = Some ''A''\<rparr>) False defaultManager)
       = [SendTo ''x'' ''A'' ''B'' ''{}'']"
  using sendTestMessage_dispatch [OF defaultManager_broker, of "''x''" "''{}''" False "\<lparr>opt_recipient = Some ''*'', opt_source = Some ''A''\<rparr>"]
        sendTestMessage_dispatch [OF defaultManager_broker, of "''x''" "''{}''" False "\<lparr>opt_recipient = Some ''B'', opt_source = Some ''A''\<rparr>"]
  by (simp add: defaultManager_broker or_else_def)

text \<open>C9 as stated fails for the empty recipient: it is supplied and is not \<open>*\<close>, yet the
  broadcast command is called.\<close>

theorem sendTestMessage_empty_recipient_counterexample:
  "fst (sendTestMessage ''x'' ''{}'' (Some \<lparr>opt_recipient = Some [], opt_source = None\<rparr>) False defaultManager)
     = [Broadcast ''x'' ''devtools'' ''{}'']
   \<and> Some [] \<noteq> Some ''*'' \<and> Some ([] :: string) \<noteq> None"
  by (simp add: sendTestMessage_def Let_def truthy_def or_else_def defaultManager_broker)

section \<open>An acknowledged event without a recipient field\<close>

text \<open>
  Claim C10. A post-send notification with status ACK for an event that has no recipient
  field changes no received counter: the block that counts receptions returns the manager
  unchanged. The record that either hook builds for such an event nevertheless has
  recipient \<open>*\<close>; in particular, when the history has no record of the id and can hold at
  least one, the record stored by this notification is the last of the history, has
  recipient \<open>*\<close> and is delivered.
\<close>

theorem ack_without_recipient_counts_nobody:
  "ev_recipient ev = None \<Longrightarrow> res_status r = ACK \<Longrightarrow>
   (\<forall>c. countEventsReceivedByClient (handleEventComplete ev (Some r) env st) c
          = countEventsReceivedByClient st c)
   \<and> countReceived ev (Some r) subs st = st
   \<and> ed_recipient (eventDetailsOf ev t) = ''*''
   \<and> (find (\<lambda>e. ed_id e = ev_id ev) (s_events (m_state st)) = None
        \<and> 0 < cfg_maxEventHistory (m_config st) \<longrightarrow>
        ed_id (last (s_events (m_state (handleEventComplete ev (Some r) env st)))) = ev_id ev
        \<and> ed_recipient (last (s_events (m_state (handleEventComplete ev (Some r) env st)))) = ''*''
        \<and> ed_status (last (s_events (m_state (handleEventComplete ev (Some r) env st)))) = Delivered)"
proof (intro conjI impI)
  assume nr: "ev_recipient ev = None" and ack: "res_status r = ACK"
  show "\<forall>c. countEventsReceivedByClient (handleEventComplete ev (Some r) env st) c
          = countEventsReceivedByClient st c"
    using nr by (simp add: countEventsReceivedByClient_def handleEventComplete_received
        countReceived_no_recipient)
  show "countReceived ev (Some r) subs st = st"
    using nr by (rule countReceived_no_recipient)
  show rec: "ed_recipient (eventDetailsOf ev t) = ''*''" for t
    using nr by (simp add: eventDetailsOf_def or_else_def)
  assume fresh: "find (\<lambda>e. ed_id e = ev_id ev) (s_events (m_state st)) = None
        \<and> 0 < cfg_maxEventHistory (m_config st)"
  then have notin: "ev_id ev \<notin> ed_id ` set (s_events (m_state st))"
    by (auto simp: find_None_iff)
  let ?k = "Suc (length (s_events (m_state st))) - cfg_maxEventHistory (m_config st)"
  let ?xs = "s_events (m_state st) @ [eventDetailsOf ev (pe_iso env)]"
  have k: "?k < length ?xs" using fresh by simp
  then have ne: "drop ?k ?xs \<noteq> []" by simp
  have lst: "last (drop ?k ?xs) = eventDetailsOf ev (pe_iso env)"
    using k by (simp only: last_drop) simp
  have ev: "s_events (m_state (handleEventComplete ev (Some r) env st)) =
     map (\<lambda>e. if ed_id e = ev_id ev
              then apply_update (completionUpdate (Some r) (startTimeOf st (ev_id ev)) (pe_now2 env)) e
              else e) (drop ?k ?xs)"
    using notin by (simp add: handleEventComplete_events catchUp_events)
  have lastev: "last (s_events (m_state (handleEventComplete ev (Some r) env st))) =
     apply_update (completionUpdate (Some r) (startTimeOf st (ev_id ev)) (pe_now2 env))
        (eventDetailsOf ev (pe_iso env))"
  proof -
    have "last (map f (drop ?k ?xs)) = f (last (drop ?k ?xs))" for f :: "event_details \<Rightarrow> event_details"
      using ne by (rule last_map)
    then show ?thesis unfolding ev lst by simp
  qed
  show "ed_id (last (s_events (m_state (handleEventComplete ev (Some r) env st)))) = ev_id ev"
    unfolding lastev by (simp add: apply_update_def eventDetailsOf_def)
  show "ed_recipient (last (s_events (m_state (handleEventComplete ev (Some r) env st)))) = ''*''"
    unfolding lastev using nr by (simp add: apply_update_def eventDetailsOf_def or_else_def)
  show "ed_status (last (s_events (m_state (handleEventComplete ev (Some r) env st)))) = Delivered"
    unfolding lastev using ack by (simp add: apply_update_def completionUpdate_def isSuccess_def)
qed

theorem ack_without_recipient_counts_nobody_witness:
  "ev_recipient (pingEvent ''a'' None) = None \<and> res_status ackResult = ACK
   \<and> find (\<lambda>e. ed_id e = ev_id (pingEvent ''a'' None)) (s_events (m_state defaultManager)) = None
   \<and> 0 < cfg_maxEventHistory (m_config defaultManager)
   \<and> countEventsReceivedByClient
       (handleEventComplete (pingEvent ''a'' None) (Some ackResult) (postEnv 9) defaultManager) ''B'' = 0
   \<and> ed_recipient (last (s_events (m_state
       (handleEventComplete (pingEvent ''a'' None) (Some ackResult) (postEnv 9) defaultManager)))) = ''*''
   \<and> ed_status (last (s_events (m_state
       (handleEventComplete (pingEvent ''a'' None) (Some ackResult) (postEnv 9) defaultManager)))) = Delivered"
proof -
  have h1: "ev_recipient (pingEvent ''a'' None) = None" by (simp add: pingEvent_def)
  have h2: "res_status ackResult = ACK" by (simp add: ackResult_def)
  have h3: "find (\<lambda>e. ed_id e = ev_id (pingEvent ''a'' None)) (s_events (m_state defaultManager)) = None
            \<and> 0 < cfg_maxEventHistory (m_config defaultManager)"
    by (simp add: defaultManager_events defaultManager_cap)
  have zero: "countEventsReceivedByClient defaultManager c = 0" for c
    by (simp add: countEventsReceivedByClient_def defaultManager_received count_of_def)
  show ?thesis
    using ack_without_recipient_counts_nobody [OF h1 h2, of "postEnv 9" defaultManager] h1 h2 h3
    by (simp add: zero)
qed

section \<open>The latency buffer\<close>

lemma pushLatency_length: "length ls \<le> 1000 \<Longrightarrow> length (pushLatency x ls) \<le> 1000"
  by (simp add: pushLatency_def Let_def)

lemma pushLatency_suffix: "suffix (pushLatency x ls) (ls @ [x])"
proof (cases "1000 < length (ls @ [x])")
  case True
  then have "pushLatency x ls = drop (length (ls @ [x]) - 500) (ls @ [x])"
    by (simp add: pushLatency_def)
  then show ?thesis by (simp only: suffix_drop)
next
  case False
  then have "pushLatency x ls = ls @ [x]"
    by (simp add: pushLatency_def)
  then show ?thesis by (simp only: suffix_order.refl)
qed

lemma fold_pushLatency_length:
  "length ls \<le> 1000 \<Longrightarrow> length (fold pushLatency xs ls) \<le> 1000"
  by (induction xs arbitrary: ls) (simp_all add: pushLatency_length)

lemma fold_pushLatency_suffix: "suffix (fold pushLatency xs ls) (ls @ xs)"
proof (induction xs arbitrary: ls)
  case Nil
  then show ?case by simp
next
  case (Cons x xs)
  have "suffix (fold pushLatency xs (pushLatency x ls)) (pushLatency x ls @ xs)"
    by (rule Cons.IH)
  moreover have "suffix (pushLatency x ls @ xs) ((ls @ [x]) @ xs)"
    using pushLatency_suffix [of x ls] by (simp only: same_suffix_suffix)
  ultimately show ?case
    using suffix_order.trans by fastforce
qed

lemma handleEventComplete_latencies:
  "im_latencies (m_metrics (handleEventComplete ev res env st)) =
     (case startTimeOf st (ev_id ev) of
        None \<Rightarrow> im_latencies (m_metrics st)
      | Some t \<Rightarrow> pushLatency (pe_now1 env - t) (im_latencies (m_metrics st)))"
  by (simp add: handleEventComplete_def Let_def recordLatency_def split: option.split)

lemma notify_latencies:
  "im_latencies (m_metrics (notify n st)) =
     fold pushLatency (sampleOf st n) (im_latencies (m_metrics st))"
  by (cases n) (simp_all add: handleEventComplete_latencies split: option.split)

lemma run_latencies:
  "im_latencies (m_metrics (run ns st)) =
     fold pushLatency (samplesOf st ns) (im_latencies (m_metrics st))"
  by (induction ns arbitrary: st) (simp_all add: notify_latencies)

lemma defaultManager_latencies: "im_latencies (m_metrics defaultManager) = []"
  by (simp add: defaultManager_def attachedManager_def attachTo_def Let_def updateInternalState_def
      startPeriodicUpdates_def newManager_def loadPersistedState_def initialMetrics_def split: option.split)

lemma defaultManager_timers: "im_eventTimers (m_metrics defaultManager) = Map.empty"
  by (simp add: defaultManager_def attachedManager_def attachTo_def Let_def updateInternalState_def
      startPeriodicUpdates_def newManager_def loadPersistedState_def initialMetrics_def split: option.split)

text \<open>
  Claim C8. Starting from a buffer of at most 1000 samples (the constructor's buffer is
  empty), after every run of notifications the latency buffer has at most 1000 samples and
  is a suffix of the old buffer followed by the samples appended during the run, in order:
  what is kept are always the most recent samples. Each notification appends its sample
  with \<open>pushLatency\<close>, and whenever the append takes the buffer past 1000 samples, the
  buffer becomes its last 500 samples.
\<close>

theorem latency_buffer_bounded:
  "length (im_latencies (m_metrics st)) \<le> 1000 \<Longrightarrow>
   length (im_latencies (m_metrics (run ns st))) \<le> 1000
   \<and> suffix (im_latencies (m_metrics (run ns st))) (im_latencies (m_metrics st) @ samplesOf st ns)
   \<and> im_latencies (m_metrics (notify n st)) =
       fold pushLatency (sampleOf st n) (im_latencies (m_metrics st))
   \<and> (1000 < length (ls @ [x]) \<longrightarrow>
        pushLatency x ls = drop (length (ls @ [x]) - 500) (ls @ [x])
        \<and> length (pushLatency x ls) = 500)"
  by (simp add: run_latencies fold_pushLatency_length fold_pushLatency_suffix notify_latencies
      pushLatency_def)

theorem latency_buffer_bounded_witness:
  "length (im_latencies (m_metrics defaultManager)) \<le> 1000
   \<and> 1000 < length (replicate 1000 (0::int) @ [7])
   \<and> im_latencies (m_metrics
        (run [PreSend (pingEvent ''a'' None) 5 ''t'', PostSend (pingEvent ''a'' None) (Some ackResult) (postEnv 9)]
           defaultManager)) = [4]
   \<and> pushLatency 7 (replicate 1000 0) = replicate 499 0 @ [7]"
proof -
  have h: "length (im_latencies (m_metrics defaultManager)) \<le> 1000"
    by (simp add: defaultManager_latencies)
  have o: "1000 < length (replicate 1000 (0::int) @ [7])" by simp
  let ?ns = "[PreSend (pingEvent ''a'' None) 5 ''t'', PostSend (pingEvent ''a'' None) (Some ackResult) (postEnv 9)]"
  note t = latency_buffer_bounded [OF h, of ?ns "PreSend (pingEvent ''a'' None) 5 ''t''" "replicate 1000 0" 7]
  have s: "samplesOf defaultManager ?ns = [4]"
    by (simp add: startTimeOf_def handleEventStart_def Let_def pingEvent_def postEnv_def)
  from t have "suffix (im_latencies (m_metrics (run ?ns defaultManager))) [4]"
    by (simp only: s defaultManager_latencies append_Nil)
  moreover have "im_latencies (m_metrics (run ?ns defaultManager)) = [4]"
    by (simp only: run_latencies s defaultManager_latencies) (simp add: pushLatency_def)
  moreover from t o have "pushLatency 7 (replicate 1000 0) = drop (length (replicate 1000 (0::int) @ [7]) - 500) (replicate 1000 0 @ [7])"
    by blast
  then have "pushLatency 7 (replicate 1000 0) = replicate 499 0 @ [7]"
    by simp
  ultimately show ?thesis using h o by simp
qed

section \<open>The bounded history\<close>

lemma updateInternalState_frame [simp]:
  "m_broker (updateInternalState env st) = m_broker st"
  "m_config (updateInternalState env st) = m_config st"
  "m_listeners (updateInternalState env st) = m_listeners st"
  "m_updateInterval (updateInternalState env st) = m_updateInterval st"
  "m_metrics (updateInternalState env st) = m_metrics st"
  "s_events (m_state (updateInternalState env st)) = s_events (m_state st)"
  "s_settings (m_state (updateInternalState env st)) = s_settings (m_state st)"
  by (simp_all add: updateInternalState_def)

lemma clearEvents_frame [simp]:
  "m_config (clearEvents st) = m_config st"
  "s_events (m_state (clearEvents st)) = []"
  by (simp_all add: clearEvents_def)

lemma updateSettings_frame [simp]:
  "m_config (updateSettings p st) = m_config st"
  "s_events (m_state (updateSettings p st)) = s_events (m_state st)"
  by (simp_all add: updateSettings_def)

lemma notify_config [simp]: "m_config (notify n st) = m_config st"
  by (cases n) simp_all

lemma perform_config [simp]: "m_config (perform x st) = m_config st"
  by (cases x) simp_all

lemma run_config [simp]: "m_config (run ns st) = m_config st"
  by (induction ns arbitrary: st) simp_all

lemma runOps_config [simp]: "m_config (runOps ops st) = m_config st"
  by (induction ops arbitrary: st) simp_all




lemma attachedManager_events: "s_events (m_state (attachedManager p stored now t sh h env)) = []"
  by (simp add: attachedManager_def attachTo_def Let_def startPeriodicUpdates_def newManager_def
      loadPersistedState_def getInitialState_def split: option.split)

lemma attachedManager_config: "m_config (attachedManager p stored now t sh h env) = makeConfig p"
  by (simp add: attachedManager_def attachTo_def Let_def startPeriodicUpdates_def newManager_def
      loadPersistedState_def split: option.split)












section \<open>The lifecycle of a record\<close>

lemma apply_update_id [simp]: "ed_id (apply_update u e) = ed_id e"
  by (simp add: apply_update_def)

lemma completion_status:
  "ed_status (apply_update (completionUpdate res s now) e) = (if isSuccess res then Delivered else Failed)"
  by (simp add: apply_update_def completionUpdate_def)

lemma handleEventStart_history:
  "\<exists>k extra. s_events (m_state (handleEventStart ev now t st)) = drop k (s_events (m_state st)) @ extra
     \<and> length extra \<le> 1"
proof -
  let ?xs = "s_events (m_state st)"
  let ?k = "Suc (length ?xs) - cfg_maxEventHistory (m_config st)"
  have "s_events (m_state (handleEventStart ev now t st)) =
      drop ?k ?xs @ drop (?k - length ?xs) [eventDetailsOf ev t]"
    by (simp add: handleEventStart_events)
  moreover have "length (drop (?k - length ?xs) [eventDetailsOf ev t]) \<le> 1" by simp
  ultimately show ?thesis by blast
qed

lemma handleEventComplete_history:
  "\<exists>k extra. s_events (m_state (handleEventComplete ev res env st)) =
       map (\<lambda>e. if ed_id e = ev_id ev
                then apply_update (completionUpdate res (startTimeOf st (ev_id ev)) (pe_now2 env)) e
                else e)
           (drop k (s_events (m_state st))) @ extra
     \<and> length extra \<le> 1"
proof (cases "ev_id ev \<in> ed_id ` set (s_events (m_state st))")
  case True
  then have "s_events (m_state (handleEventComplete ev res env st)) =
       map (\<lambda>e. if ed_id e = ev_id ev
                then apply_update (completionUpdate res (startTimeOf st (ev_id ev)) (pe_now2 env)) e
                else e)
           (drop 0 (s_events (m_state st))) @ []"
    by (simp add: handleEventComplete_events catchUp_events)
  moreover have "length ([] :: event_details list) \<le> 1" by simp
  ultimately show ?thesis by blast
next
  case False
  let ?xs = "s_events (m_state st)"
  let ?k = "Suc (length ?xs) - cfg_maxEventHistory (m_config st)"
  let ?f = "\<lambda>e. if ed_id e = ev_id ev
                then apply_update (completionUpdate res (startTimeOf st (ev_id ev)) (pe_now2 env)) e
                else e"
  from False have "s_events (m_state (handleEventComplete ev res env st)) =
      map ?f (drop ?k ?xs) @ map ?f (drop (?k - length ?xs) [eventDetailsOf ev (pe_iso env)])"
    by (simp add: handleEventComplete_events catchUp_events)
  moreover have "length (map ?f (drop (?k - length ?xs) [eventDetailsOf ev (pe_iso env)])) \<le> 1"
    by simp
  ultimately show ?thesis by blast
qed

lemma handleEventComplete_statuses:
  "\<forall>e\<in>set (s_events (m_state (handleEventComplete ev res env st))).
     ed_id e = ev_id ev \<longrightarrow> ed_status e = (if isSuccess res then Delivered else Failed)"
  by (auto simp: handleEventComplete_events completion_status)

text \<open>
  Claim C4, as the code has it. A notification turns the history into: the old history
  without its \<open>k\<close> oldest records, each remaining record passed through a function \<open>g\<close>,
  followed by at most one new record. \<open>g\<close> keeps the id of every record, never turns a
  record that is delivered or failed into a pending one, and changes a record only when the
  notification is a post-send for the id of that record. After a post-send notification
  every record of that id is delivered when the result is ACK and failed otherwise: the
  last post-send for an id decides, so a later post-send with the other outcome does
  overwrite delivered with failed or failed with delivered.
\<close>

theorem status_never_returns_to_pending:
  "(\<exists>g k extra.
      s_events (m_state (notify n st)) = map g (drop k (s_events (m_state st))) @ extra
      \<and> length extra \<le> 1
      \<and> (\<forall>e. ed_id (g e) = ed_id e
             \<and> (ed_status e \<noteq> Pending \<longrightarrow> ed_status (g e) \<noteq> Pending)
             \<and> (g e \<noteq> e \<longrightarrow> isPostSend n \<and> ed_id e = ev_id (eventOf n))))
   \<and> (\<forall>e\<in>set (s_events (m_state (handleEventComplete ev res env st))).
        ed_id e = ev_id ev \<longrightarrow> ed_status e = (if isSuccess res then Delivered else Failed))"
proof (rule conjI)
  show "\<exists>g k extra.
      s_events (m_state (notify n st)) = map g (drop k (s_events (m_state st))) @ extra
      \<and> length extra \<le> 1
      \<and> (\<forall>e. ed_id (g e) = ed_id e
             \<and> (ed_status e \<noteq> Pending \<longrightarrow> ed_status (g e) \<noteq> Pending)
             \<and> (g e \<noteq> e \<longrightarrow> isPostSend n \<and> ed_id e = ev_id (eventOf n)))"
  proof (cases n)
    case (PreSend ev' now t)
    from handleEventStart_history [of ev' now t st] obtain k extra where
      h: "s_events (m_state (handleEventStart ev' now t st)) = drop k (s_events (m_state st)) @ extra"
        "length extra \<le> 1" by blast
    have "s_events (m_state (notify n st)) = map (\<lambda>e. e) (drop k (s_events (m_state st))) @ extra"
      using h(1) by (simp add: PreSend)
    then show ?thesis using h(2) by (intro exI [of _ "\<lambda>e. e"] exI [of _ k] exI [of _ extra]) simp
  next
    case (PostSend ev' res' env')
    let ?f = "\<lambda>e. if ed_id e = ev_id ev'
                then apply_update (completionUpdate res' (startTimeOf st (ev_id ev')) (pe_now2 env')) e
                else e"
    from handleEventComplete_history [of ev' res' env' st] obtain k extra where
      h: "s_events (m_state (handleEventComplete ev' res' env' st)) =
            map ?f (drop k (s_events (m_state st))) @ extra" "length extra \<le> 1" by blast
    have g: "\<forall>e. ed_id (?f e) = ed_id e
             \<and> (ed_status e \<noteq> Pending \<longrightarrow> ed_status (?f e) \<noteq> Pending)
             \<and> (?f e \<noteq> e \<longrightarrow> isPostSend n \<and> ed_id e = ev_id (eventOf n))"
      by (simp add: PostSend completion_status)
    have "s_events (m_state (notify n st)) = map ?f (drop k (s_events (m_state st))) @ extra"
      using h(1) by (simp add: PostSend)
    with h(2) g show ?thesis by blast
  qed
  show "\<forall>e\<in>set (s_events (m_state (handleEventComplete ev res env st))).
        ed_id e = ev_id ev \<longrightarrow> ed_status e = (if isSuccess res then Delivered else Failed)"
    by (rule handleEventComplete_statuses)
qed

lemma one_ack_history:
  "s_events (m_state (handleEventComplete (pingEvent ''a'' None) (Some ackResult) (postEnv 9) defaultManager))
     = [apply_update (completionUpdate (Some ackResult) None 9) (eventDetailsOf (pingEvent ''a'' None) ''t'')]"
  by (simp add: handleEventComplete_events catchUp_events defaultManager_events defaultManager_cap
      startTimeOf_def defaultManager_timers postEnv_def pingEvent_def)

theorem status_never_returns_to_pending_witness:
  "ed_id (eventDetailsOf (pingEvent ''a'' None) ''t'') = ev_id (pingEvent ''a'' None)
   \<and> map ed_status (s_events (m_state
        (handleEventComplete (pingEvent ''a'' None) (Some ackResult) (postEnv 9) defaultManager)))
       = [Delivered]"
proof -
  let ?ev = "pingEvent ''a'' None"
  let ?st = "handleEventComplete ?ev (Some ackResult) (postEnv 9) defaultManager"
  let ?r = "apply_update (completionUpdate (Some ackResult) None 9) (eventDetailsOf ?ev ''t'')"
  note t = status_never_returns_to_pending [of _ defaultManager ?ev "Some ackResult" "postEnv 9"]
  have m: "?r \<in> set (s_events (m_state ?st))" by (simp only: one_ack_history) simp
  have i: "ed_id ?r = ev_id ?ev" by simp
  from t m i have "ed_status ?r = (if isSuccess (Some ackResult) then Delivered else Failed)"
    by blast
  then have "ed_status ?r = Delivered" by (simp add: isSuccess_def ackResult_def)
  then show ?thesis by (simp add: one_ack_history)
qed

text \<open>C4 as stated fails: a second post-send notification for the same id, this time
  with NACK, changes the record from delivered to failed.\<close>

theorem status_overwritten_counterexample:
  "map ed_status (s_events (m_state
      (run [PreSend (pingEvent ''a'' None) 5 ''t'',
            PostSend (pingEvent ''a'' None) (Some ackResult) (postEnv 9)] defaultManager)))
     = [Delivered]
   \<and> map ed_status (s_events (m_state
      (run [PreSend (pingEvent ''a'' None) 5 ''t'',
            PostSend (pingEvent ''a'' None) (Some ackResult) (postEnv 9),
            PostSend (pingEvent ''a'' None) (Some nackResult) (postEnv 12)] defaultManager)))
     = [Failed]"
  by (simp add: handleEventComplete_events catchUp_events handleEventStart_events
      defaultManager_events defaultManager_cap completion_status pingEvent_def eventDetailsOf_def
      isSuccess_def ackResult_def nackResult_def)

section \<open>Counting events\<close>




text \<open>The ids of the history after a notification, when no record is evicted.\<close>

lemma notify_ids:
  assumes "(isPostSend n \<and> ev_id (eventOf n) \<in> ed_id ` set (s_events (m_state st)))
           \<or> length (s_events (m_state st)) < cfg_maxEventHistory (m_config st)"
  shows "map ed_id (s_events (m_state (notify n st))) =
     (if isPostSend n \<and> ev_id (eventOf n) \<in> ed_id ` set (s_events (m_state st))
      then map ed_id (s_events (m_state st))
      else map ed_id (s_events (m_state st)) @ [ev_id (eventOf n)])"
proof (cases n)
  case (PreSend ev now t)
  with assms show ?thesis by (simp add: handleEventStart_events)
next
  case (PostSend ev res env)
  have ids: "map ed_id (map (\<lambda>e. if ed_id e = ev_id ev then apply_update u e else e) xs) = map ed_id xs"
    for u xs by (induction xs) simp_all
  show ?thesis using assms
    by (auto simp: PostSend handleEventComplete_events catchUp_events ids)
qed

lemma idsOf_Cons: "idsOf (n # ns) = insert (ev_id (eventOf n)) (idsOf ns)"
  by (simp add: idsOf_def)

lemma finite_idsOf [simp]: "finite (idsOf ns)"
  by (simp add: idsOf_def)











section \<open>Delivery statistics\<close>

lemma recordDelivery_totals:
  "t_total (im_acks (m_metrics (recordDelivery ev res st)))
     + t_total (im_nacks (m_metrics (recordDelivery ev res st)))
   = t_total (im_acks (m_metrics st)) + t_total (im_nacks (m_metrics st)) + 1"
  by (simp add: recordDelivery_def tally_incr_def)

lemma handleEventComplete_totals:
  "t_total (im_acks (m_metrics (handleEventComplete ev res env st)))
     + t_total (im_nacks (m_metrics (handleEventComplete ev res env st)))
   = t_total (im_acks (m_metrics st)) + t_total (im_nacks (m_metrics st)) + 1"
  by (simp add: handleEventComplete_def Let_def recordDelivery_totals)

lemma notify_totals:
  "t_total (im_acks (m_metrics (notify n st))) + t_total (im_nacks (m_metrics (notify n st)))
   = t_total (im_acks (m_metrics st)) + t_total (im_nacks (m_metrics st))
     + (if isPostSend n then 1 else 0)"
  by (cases n) (simp_all add: handleEventComplete_totals)

lemma run_totals:
  "t_total (im_acks (m_metrics (run ns st))) + t_total (im_nacks (m_metrics (run ns st)))
   = t_total (im_acks (m_metrics st)) + t_total (im_nacks (m_metrics st)) + length (postedIds ns)"
proof (induction ns arbitrary: st)
  case Nil
  then show ?case by (simp add: postedIds_def)
next
  case (Cons n ns)
  have "length (postedIds (n # ns)) = (if isPostSend n then 1 else 0) + length (postedIds ns)"
    by (simp add: postedIds_def)
  then show ?case using Cons.IH [of "notify n st"] notify_totals [of n st] by simp
qed

lemma attachedManager_tallies:
  "im_acks (m_metrics (attachedManager p stored now t sh h env)) = zero_tally"
  "im_nacks (m_metrics (attachedManager p stored now t sh h env)) = zero_tally"
  by (simp_all add: attachedManager_def attachTo_def Let_def startPeriodicUpdates_def newManager_def
      loadPersistedState_def initialMetrics_def split: option.split)

lemma successRate_range:
  "0 \<le> calculateSuccessRate st \<and> calculateSuccessRate st \<le> 1"
  by (simp add: calculateSuccessRate_def Let_def)

text \<open>The records of the history after a notification, when no record is evicted.\<close>

lemma notify_status:
  assumes room: "(isPostSend n \<and> ev_id (eventOf n) \<in> ed_id ` set (s_events (m_state st)))
           \<or> length (s_events (m_state st)) < cfg_maxEventHistory (m_config st)"
    and fresh: "isPostSend n \<or> ev_id (eventOf n) \<notin> ed_id ` set (s_events (m_state st))"
    and sub: "posted \<subseteq> ed_id ` set (s_events (m_state st))"
    and inv: "\<forall>e\<in>set (s_events (m_state st)). (ed_status e \<noteq> Pending) = (ed_id e \<in> posted)"
  shows "\<forall>e\<in>set (s_events (m_state (notify n st))).
           (ed_status e \<noteq> Pending) =
           (ed_id e \<in> (if isPostSend n then insert (ev_id (eventOf n)) posted else posted))"
proof (cases n)
  case (PreSend ev now t)
  with room have "s_events (m_state (notify n st)) = s_events (m_state st) @ [eventDetailsOf ev t]"
    by (simp add: handleEventStart_events)
  moreover have "ed_status (eventDetailsOf ev t) = Pending" by (simp add: eventDetailsOf_def)
  moreover have "ev_id ev \<notin> posted" using fresh sub PreSend by auto
  ultimately show ?thesis using inv PreSend by auto
next
  case (PostSend ev res env)
  let ?f = "\<lambda>e. if ed_id e = ev_id ev
                then apply_update (completionUpdate res (startTimeOf st (ev_id ev)) (pe_now2 env)) e
                else e"
  have ev: "s_events (m_state (notify n st)) = map ?f (s_events (m_state (catchUp ev (pe_iso env) st)))"
    by (simp add: PostSend handleEventComplete_events)
  have src: "set (s_events (m_state (catchUp ev (pe_iso env) st)))
      \<subseteq> insert (eventDetailsOf ev (pe_iso env)) (set (s_events (m_state st)))"
    using room by (auto simp: PostSend catchUp_events)
  show ?thesis
  proof
    fix e' assume "e' \<in> set (s_events (m_state (notify n st)))"
    then obtain e where e: "e \<in> set (s_events (m_state (catchUp ev (pe_iso env) st)))" and e': "e' = ?f e"
      unfolding ev by auto
    show "(ed_status e' \<noteq> Pending) =
           (ed_id e' \<in> (if isPostSend n then insert (ev_id (eventOf n)) posted else posted))"
    proof (cases "ed_id e = ev_id ev")
      case True
      then show ?thesis by (simp add: e' PostSend apply_update_def completionUpdate_def)
    next
      case False
      with e src have "e \<in> set (s_events (m_state st))" by auto
      with inv False show ?thesis by (simp add: e' PostSend)
    qed
  qed
qed

lemma postedIds_Cons:
  "postedIds (n # ns) = (if isPostSend n then ev_id (eventOf n) # postedIds ns else postedIds ns)"
  by (simp add: postedIds_def)

lemma run_statuses:
  assumes "preSendsFirst seen ns"
    and "set (map ed_id (s_events (m_state st))) = seen"
    and "distinct (map ed_id (s_events (m_state st)))"
    and "card (seen \<union> idsOf ns) \<le> cfg_maxEventHistory (m_config st)"
    and "posted \<subseteq> seen"
    and "\<forall>e\<in>set (s_events (m_state st)). (ed_status e \<noteq> Pending) = (ed_id e \<in> posted)"
  shows "(\<forall>e\<in>set (s_events (m_state (run ns st))).
            (ed_status e \<noteq> Pending) = (ed_id e \<in> posted \<union> set (postedIds ns)))
    \<and> set (map ed_id (s_events (m_state (run ns st)))) = seen \<union> idsOf ns
    \<and> distinct (map ed_id (s_events (m_state (run ns st))))"
  using assms
proof (induction ns arbitrary: st seen posted)
  case Nil
  then show ?case by (simp add: idsOf_def postedIds_def)
next
  case (Cons n ns)
  let ?i = "ev_id (eventOf n)"
  let ?xs = "s_events (m_state st)"
  let ?st' = "notify n st"
  let ?posted' = "if isPostSend n then insert ?i posted else posted"
  have fin: "finite seen" using Cons.prems(2) by auto
  have seen_ids: "ed_id ` set ?xs = seen" using Cons.prems(2) by simp
  have len: "length ?xs = card seen"
    using Cons.prems(2,3) distinct_card [of "map ed_id ?xs"] by simp
  have un: "seen \<union> idsOf (n # ns) = insert ?i seen \<union> idsOf ns"
    by (simp add: idsOf_Cons)
  have fresh_or_post: "isPostSend n \<or> ?i \<notin> seen" and rest: "preSendsFirst (insert ?i seen) ns"
    using Cons.prems(1) by simp_all
  have room: "(isPostSend n \<and> ?i \<in> ed_id ` set ?xs) \<or> length ?xs < cfg_maxEventHistory (m_config st)"
  proof (cases "?i \<in> seen")
    case True
    with fresh_or_post seen_ids show ?thesis by simp
  next
    case False
    then have "card (insert ?i seen) = Suc (card seen)" using fin by simp
    moreover have "card (insert ?i seen) \<le> card (seen \<union> idsOf (n # ns))"
      unfolding un using fin by (intro card_mono) auto
    ultimately show ?thesis using Cons.prems(4) len by simp
  qed
  have ids': "map ed_id (s_events (m_state ?st')) =
     (if ?i \<in> seen then map ed_id ?xs else map ed_id ?xs @ [?i])"
    using notify_ids [OF room] fresh_or_post seen_ids by auto
  have set': "set (map ed_id (s_events (m_state ?st'))) = insert ?i seen"
    unfolding ids' using Cons.prems(2) by auto
  have dist': "distinct (map ed_id (s_events (m_state ?st')))"
    unfolding ids' using Cons.prems(2,3) by auto
  have cap': "card (insert ?i seen \<union> idsOf ns) \<le> cfg_maxEventHistory (m_config ?st')"
    using Cons.prems(4) unfolding un by simp
  have sub': "?posted' \<subseteq> insert ?i seen" using Cons.prems(5) by auto
  have inv': "\<forall>e\<in>set (s_events (m_state ?st')). (ed_status e \<noteq> Pending) = (ed_id e \<in> ?posted')"
    using notify_status [OF room _ _ Cons.prems(6)] fresh_or_post Cons.prems(5) seen_ids by simp
  have p: "?posted' \<union> set (postedIds ns) = posted \<union> set (postedIds (n # ns))"
    by (simp add: postedIds_Cons)
  from Cons.IH [OF rest set' dist' cap' sub' inv'] show ?case
    unfolding un p by simp
qed

lemma completed_count:
  assumes "distinct (map ed_id xs)" and "posted \<subseteq> ed_id ` set xs"
    and "\<forall>e\<in>set xs. (ed_status e \<noteq> Pending) = (ed_id e \<in> posted)"
  shows "length (filter (\<lambda>e. ed_status e \<noteq> Pending) xs) = card posted"
proof -
  have "filter (\<lambda>e. ed_status e \<noteq> Pending) xs = filter (\<lambda>e. ed_id e \<in> posted) xs"
    using assms(3) by (intro filter_cong) auto
  then have "length (filter (\<lambda>e. ed_status e \<noteq> Pending) xs)
      = length (filter (\<lambda>i. i \<in> posted) (map ed_id xs))"
    by (simp add: filter_map comp_def)
  also have "\<dots> = card ({i. i \<in> posted} \<inter> set (map ed_id xs))"
    using assms(1) by (rule distinct_length_filter)
  also have "{i. i \<in> posted} \<inter> set (map ed_id xs) = posted"
    using assms(2) by auto
  finally show ?thesis .
qed

lemma postedIds_subset: "set (postedIds ns) \<subseteq> idsOf ns"
  by (auto simp: postedIds_def idsOf_def)

lemma run_completed:
  assumes "preSendsFirst {} ns" and "distinct (postedIds ns)"
    and "card (idsOf ns) \<le> cfg_maxEventHistory (m_config st)"
    and "s_events (m_state st) = []"
  shows "length (completedRecords (run ns st)) = length (postedIds ns)"
proof -
  have inv: "(\<forall>e\<in>set (s_events (m_state (run ns st))).
            (ed_status e \<noteq> Pending) = (ed_id e \<in> {} \<union> set (postedIds ns)))
    \<and> set (map ed_id (s_events (m_state (run ns st)))) = {} \<union> idsOf ns
    \<and> distinct (map ed_id (s_events (m_state (run ns st))))"
    using assms by (intro run_statuses) simp_all
  have "length (completedRecords (run ns st)) = card (set (postedIds ns))"
    unfolding completedRecords_def
    using inv postedIds_subset [of ns] by (intro completed_count) auto
  also have "\<dots> = length (postedIds ns)"
    using assms(2) by (rule distinct_card)
  finally show ?thesis .
qed

text \<open>
  Claim C5, as the code has it. After every sequence of notifications on a manager that
  was constructed and attached, the ACK total plus the NACK total equals the number of
  post-send notifications of the sequence, and so does the total of the next snapshot.
  This number is the number of records of the history that are no longer pending when
  every pre-send notification is the first of its id, no id has two post-send
  notifications and the number of distinct ids does not exceed the history maximum. The
  success rate lies between 0 and 1, is 0 when both totals are 0 and is the ACK total
  divided by the sum of both totals otherwise; the snapshot reports this rate.
\<close>

theorem delivery_totals_and_rate:
  "t_total (im_acks (m_metrics (run ns (attachedManager p stored now t sh h env))))
     + t_total (im_nacks (m_metrics (run ns (attachedManager p stored now t sh h env))))
     = length (postedIds ns)
   \<and> ds_totalDelivery (s_deliveryStats (m_state
        (updateInternalState env' (run ns (attachedManager p stored now t sh h env)))))
     = length (postedIds ns)
   \<and> (preSendsFirst {} ns \<and> distinct (postedIds ns)
        \<and> card (idsOf ns) \<le> cfg_maxEventHistory (makeConfig p) \<longrightarrow>
        length (completedRecords (run ns (attachedManager p stored now t sh h env)))
          = t_total (im_acks (m_metrics (run ns (attachedManager p stored now t sh h env))))
            + t_total (im_nacks (m_metrics (run ns (attachedManager p stored now t sh h env)))))
   \<and> 0 \<le> calculateSuccessRate st \<and> calculateSuccessRate st \<le> 1
   \<and> (t_total (im_acks (m_metrics st)) = 0 \<and> t_total (im_nacks (m_metrics st)) = 0 \<longrightarrow>
        calculateSuccessRate st = 0)
   \<and> (0 < t_total (im_acks (m_metrics st)) + t_total (im_nacks (m_metrics st)) \<longrightarrow>
        calculateSuccessRate st
          = real (t_total (im_acks (m_metrics st)))
            / real (t_total (im_acks (m_metrics st)) + t_total (im_nacks (m_metrics st))))
   \<and> ds_successRate (buildDeliveryStats st) = calculateSuccessRate st
   \<and> pm_successRate (buildPerformanceMetrics st now' mem) = calculateSuccessRate st"
proof -
  let ?st0 = "attachedManager p stored now t sh h env"
  have sum: "t_total (im_acks (m_metrics (run ns ?st0))) + t_total (im_nacks (m_metrics (run ns ?st0)))
     = length (postedIds ns)"
    using run_totals [of ns ?st0] by (simp add: attachedManager_tallies zero_tally_def)
  have snap: "ds_totalDelivery (s_deliveryStats (m_state (updateInternalState env' (run ns ?st0))))
     = length (postedIds ns)"
    using sum by (simp add: updateInternalState_def buildDeliveryStats_def)
  have compl: "length (completedRecords (run ns ?st0))
          = t_total (im_acks (m_metrics (run ns ?st0))) + t_total (im_nacks (m_metrics (run ns ?st0)))"
    if "preSendsFirst {} ns \<and> distinct (postedIds ns)
        \<and> card (idsOf ns) \<le> cfg_maxEventHistory (makeConfig p)"
    using that run_completed [of ns ?st0] sum
    by (simp add: attachedManager_events attachedManager_config)
  have rate: "0 \<le> calculateSuccessRate st \<and> calculateSuccessRate st \<le> 1"
    by (rule successRate_range)
  have zero: "calculateSuccessRate st = 0"
    if "t_total (im_acks (m_metrics st)) = 0 \<and> t_total (im_nacks (m_metrics st)) = 0"
    using that by (simp add: calculateSuccessRate_def)
  have quot: "calculateSuccessRate st
          = real (t_total (im_acks (m_metrics st)))
            / real (t_total (im_acks (m_metrics st)) + t_total (im_nacks (m_metrics st)))"
    if "0 < t_total (im_acks (m_metrics st)) + t_total (im_nacks (m_metrics st))"
    using that by (simp add: calculateSuccessRate_def Let_def)
  have ds: "ds_successRate (buildDeliveryStats st) = calculateSuccessRate st"
    by (simp add: buildDeliveryStats_def)
  have pm: "pm_successRate (buildPerformanceMetrics st now' mem) = calculateSuccessRate st"
    by (simp add: buildPerformanceMetrics_def Let_def)
  from sum snap compl rate zero quot ds pm show ?thesis by blast
qed

lemma defaultManager_tallies:
  "im_acks (m_metrics defaultManager) = zero_tally" "im_nacks (m_metrics defaultManager) = zero_tally"
  by (simp_all add: defaultManager_def attachedManager_tallies)

theorem delivery_totals_and_rate_witness:
  "preSendsFirst {} [PreSend (pingEvent ''a'' None) 5 ''t'',
                     PostSend (pingEvent ''a'' None) (Some ackResult) (postEnv 9),
                     PostSend (pingEvent ''b'' None) (Some nackResult) (postEnv 12)]
   \<and> distinct (postedIds [PreSend (pingEvent ''a'' None) 5 ''t'',
                     PostSend (pingEvent ''a'' None) (Some ackResult) (postEnv 9),
                     PostSend (pingEvent ''b'' None) (Some nackResult) (postEnv 12)])
   \<and> length (completedRecords (run [PreSend (pingEvent ''a'' None) 5 ''t'',
                     PostSend (pingEvent ''a'' None) (Some ackResult) (postEnv 9),
                     PostSend (pingEvent ''b'' None) (Some nackResult) (postEnv 12)] defaultManager)) = 2
   \<and> t_total (im_acks (m_metrics defaultManager)) = 0
   \<and> t_total (im_nacks (m_metrics defaultManager)) = 0
   \<and> calculateSuccessRate defaultManager = 0"
proof -
  let ?ns = "[PreSend (pingEvent ''a'' None) 5 ''t'',
              PostSend (pingEvent ''a'' None) (Some ackResult) (postEnv 9),
              PostSend (pingEvent ''b'' None) (Some nackResult) (postEnv 12)]"
  have a: "preSendsFirst {} ?ns" by (simp add: pingEvent_def)
  have d: "distinct (postedIds ?ns)" by (simp add: postedIds_def pingEvent_def)
  have l: "length (postedIds ?ns) = 2" by (simp add: postedIds_def)
  have c: "card (idsOf ?ns) \<le> cfg_maxEventHistory (makeConfig noConfig)"
    by (simp add: idsOf_def pingEvent_def card_insert_if makeConfig_def noConfig_def)
  have z: "t_total (im_acks (m_metrics defaultManager)) = 0 \<and> t_total (im_nacks (m_metrics defaultManager)) = 0"
    by (simp add: defaultManager_tallies zero_tally_def)
  note t = delivery_totals_and_rate [of ?ns noConfig None 1 "''t''" HookAbsent 1 quietTick quietTick
      defaultManager 0 None, folded defaultManager_def]
  from t a d c have "length (completedRecords (run ?ns defaultManager))
      = t_total (im_acks (m_metrics (run ?ns defaultManager)))
        + t_total (im_nacks (m_metrics (run ?ns defaultManager)))"
    by blast
  moreover from t have "t_total (im_acks (m_metrics (run ?ns defaultManager)))
        + t_total (im_nacks (m_metrics (run ?ns defaultManager))) = length (postedIds ?ns)"
    by blast
  moreover from t z have "calculateSuccessRate defaultManager = 0" by blast
  ultimately show ?thesis using a d l z by simp
qed

text \<open>C5 as stated fails: two post-send notifications for one id give an ACK total of 1
  and a NACK total of 1, while one event was completed and the history holds one record
  that is not pending.\<close>

theorem delivery_totals_counterexample:
  "t_total (im_acks (m_metrics (run [PostSend (pingEvent ''a'' None) (Some ackResult) (postEnv 9),
        PostSend (pingEvent ''a'' None) (Some nackResult) (postEnv 12)] defaultManager)))
   + t_total (im_nacks (m_metrics (run [PostSend (pingEvent ''a'' None) (Some ackResult) (postEnv 9),
        PostSend (pingEvent ''a'' None) (Some nackResult) (postEnv 12)] defaultManager))) = 2
   \<and> length (completedRecords (run [PostSend (pingEvent ''a'' None) (Some ackResult) (postEnv 9),
        PostSend (pingEvent ''a'' None) (Some nackResult) (postEnv 12)] defaultManager)) = 1
   \<and> card (idsOf [PostSend (pingEvent ''a'' None) (Some ackResult) (postEnv 9),
        PostSend (pingEvent ''a'' None) (Some nackResult) (postEnv 12)]) = 1"
proof -
  let ?ns = "[PostSend (pingEvent ''a'' None) (Some ackResult) (postEnv 9),
        PostSend (pingEvent ''a'' None) (Some nackResult) (postEnv 12)]"
  have "t_total (im_acks (m_metrics (run ?ns defaultManager)))
      + t_total (im_nacks (m_metrics (run ?ns defaultManager))) = 2"
    using run_totals [of ?ns defaultManager]
    by (simp add: defaultManager_tallies zero_tally_def postedIds_def)
  moreover have "length (completedRecords (run ?ns defaultManager)) = 1"
    by (simp add: completedRecords_def handleEventComplete_events catchUp_events
        defaultManager_events defaultManager_cap completion_status pingEvent_def eventDetailsOf_def)
  moreover have "card (idsOf ?ns) = 1"
    by (simp add: idsOf_def pingEvent_def)
  ultimately show ?thesis by simp
qed

end
